theory Spec2Isabelle
  imports Complex_Main "HOL-Library.Sublist"
begin

section \<open>Entity names (state/api/apiclient.go)\<close>

text \<open>
  Go strings are byte sequences; they are modelled as \<^typ>\<open>string\<close> (a list of
  8-bit characters).

  \<^verbatim>\<open>fmt.Sprintf(format, a)\<close> with one string operand. Only the verb \<^verbatim>\<open>%s\<close> is
  interpreted: its first occurrence is replaced by the operand, a later one has no
  operand left (\<^verbatim>\<open>%!s(MISSING)\<close>), and an operand that no verb consumed is reported
  at the end (\<^verbatim>\<open>%!(EXTRA string=...)\<close>), as package fmt does. Formats with other
  verbs are outside this model.
\<close>

fun Sprintf :: "string \<Rightarrow> string option \<Rightarrow> string" where
  "Sprintf [] None = []"
| "Sprintf [] (Some a) = ''%!(EXTRA string='' @ a @ '')''"
| "Sprintf [c] a = c # Sprintf [] a"
| "Sprintf (c # d # f) a =
     (if c = CHR ''%'' \<and> d = CHR ''s''
      then (case a of Some v \<Rightarrow> v @ Sprintf f None
                    | None \<Rightarrow> ''%!s(MISSING)'' @ Sprintf f None)
      else c # Sprintf (d # f) a)"

text \<open>
  \<^verbatim>\<open>strings.Replace(s, old, new, -1)\<close>: every non-overlapping occurrence of
  \<open>old\<close> in \<open>s\<close>, found scanning from the left, is replaced by \<open>new\<close>. The model
  covers a non-empty \<open>old\<close> (package strings treats the empty pattern rune by rune;
  no caller in this program passes it, and the model leaves \<open>s\<close> as it is there).
\<close>

function strings_Replace :: "string \<Rightarrow> string \<Rightarrow> string \<Rightarrow> string" where
  "strings_Replace [] old new = []"
| "strings_Replace (c # cs) old new =
     (if old \<noteq> [] \<and> prefix old (c # cs)
      then new @ strings_Replace (drop (length old) (c # cs)) old new
      else c # strings_Replace cs old new)"
  by pat_completeness auto
termination
  by (relation "measure (\<lambda>(s, old, new). length s)") auto

text \<open>
  \<^verbatim>\<open>
  func MachineEntityName(id string) string {
      return fmt.Sprintf("machine-%s", id)
  }
  func UnitEntityName(unitName string) string {
      return "unit-" + strings.Replace(unitName, "/", "-", -1)
  }
  \<close>
\<close>

definition MachineEntityName :: "string \<Rightarrow> string" where
  "MachineEntityName mid = Sprintf ''machine-%s'' (Some mid)"

definition UnitEntityName :: "string \<Rightarrow> string" where
  "UnitEntityName unitName = ''unit-'' @ strings_Replace unitName ''/'' ''-''"

text \<open>
  The two kinds of entity of apiclient.go, each with the field its \<^verbatim>\<open>EntityName\<close>
  method reads (\<^verbatim>\<open>m.Id()\<close> returns \<^verbatim>\<open>m.id\<close>; the unit's is \<^verbatim>\<open>u.name\<close>).
\<close>

datatype entity = Machine string | Unit string

fun EntityName :: "entity \<Rightarrow> string" where
  "EntityName (Machine mid) = MachineEntityName mid"
| "EntityName (Unit name) = UnitEntityName name"

text \<open>
  The spec's wording of the unit tag, for comparison with the code: the unit name
  with every \<^verbatim>\<open>/\<close> replaced by \<^verbatim>\<open>-\<close>, byte by byte.
\<close>

definition slashes_to_dashes :: "string \<Rightarrow> string" where
  "slashes_to_dashes s = map (\<lambda>c. if c = CHR ''/'' then CHR ''-'' else c) s"

text \<open>
  The shape of a unit name \<^verbatim>\<open><service>/<number>\<close>, as far as the uniqueness of
  entity names needs it: exactly one \<^verbatim>\<open>/\<close>, and no \<^verbatim>\<open>-\<close> after it.
\<close>

definition unit_name_shape :: "string \<Rightarrow> bool" where
  "unit_name_shape n \<longleftrightarrow>
     length (filter (\<lambda>c. c = CHR ''/'') n) = 1 \<and>
     CHR ''-'' \<notin> set (drop 1 (dropWhile (\<lambda>c. c \<noteq> CHR ''/'') n))"

fun entity_wf :: "entity \<Rightarrow> bool" where
  "entity_wf (Machine mid) = True"
| "entity_wf (Unit name) = unit_name_shape name"

section \<open>Block device paths (package storage)\<close>

text \<open>
  Go's \<^verbatim>\<open>path/filepath\<close> on a Unix system (separator \<^verbatim>\<open>/\<close>, no volume names),
  as far as \<^verbatim>\<open>BlockDevicePath\<close> uses it. A path is split into its elements at
  every separator; \<^verbatim>\<open>Clean\<close> then applies its documented rules, element by
  element and from the left: an empty element (a repeated or trailing separator) and
  a \<^verbatim>\<open>.\<close> element are dropped; a \<^verbatim>\<open>..\<close> element removes the element before
  it when that is an ordinary element, is dropped at the root of a rooted path, and
  is kept at the front of a relative one. The empty result is \<^verbatim>\<open>.\<close>.
\<close>

fun path_elems :: "string \<Rightarrow> string list" where
  "path_elems [] = [[]]"
| "path_elems (c # cs) =
     (if c = CHR ''/'' then [] # path_elems cs
      else (case path_elems cs of
              [] \<Rightarrow> [[c]]
            | e # es \<Rightarrow> (c # e) # es))"

text \<open>\<^verbatim>\<open>strings.Join(elems, sep)\<close>.\<close>

fun strings_Join :: "string list \<Rightarrow> string \<Rightarrow> string" where
  "strings_Join [] sep = []"
| "strings_Join [e] sep = e"
| "strings_Join (e # es) sep = e @ sep @ strings_Join es sep"

definition clean_elem :: "bool \<Rightarrow> string list \<Rightarrow> string \<Rightarrow> string list" where
  "clean_elem rooted out e =
     (if e = [] \<or> e = ''.'' then out
      else if e = ''..'' then
        (if out \<noteq> [] \<and> last out \<noteq> ''..'' then butlast out
         else if \<not> rooted then out @ [''..'']
         else out)
      else out @ [e])"

definition filepath_Clean :: "string \<Rightarrow> string" where
  "filepath_Clean path =
     (if path = [] then ''.''
      else
        let rooted = (hd path = CHR ''/'');
            out = foldl (clean_elem rooted) [] (path_elems path)
        in if rooted then CHR ''/'' # strings_Join out ''/''
           else if out = [] then ''.''
           else strings_Join out ''/'')"

text \<open>
  \<^verbatim>\<open>filepath.Join(elem...)\<close>: the elements from the first non-empty one on are
  joined with the separator and the result is cleaned; with no non-empty element
  the result is the empty string.
\<close>

definition filepath_Join :: "string list \<Rightarrow> string" where
  "filepath_Join elem =
     (case dropWhile (\<lambda>e. e = []) elem of
        [] \<Rightarrow> []
      | es \<Rightarrow> filepath_Clean (strings_Join es ''/''))"

text \<open>
  \<^verbatim>\<open>
  const (
      diskByID         = "/dev/disk/by-id"
      diskByDeviceName = "/dev"
  )
  func BlockDevicePath(device BlockDevice) (string, error) {
      if device.Serial != "" {
          return filepath.Join(diskByID, device.Serial), nil
      }
      if device.DeviceName != "" {
          return filepath.Join(diskByDeviceName, device.DeviceName), nil
      }
      return "", errors.Errorf("could not determine path for block device")
  }
  \<close>
  The type \<^verbatim>\<open>BlockDevice\<close> is declared elsewhere in the package; the record has
  the two fields the function reads. An error value carries its message; the
  function's pair of results is a pair, with \<open>None\<close> for \<^verbatim>\<open>nil\<close>.
\<close>

record BlockDevice =
  DeviceName :: string
  Serial :: string

datatype go_error = Errorf string

definition diskByID :: string where
  "diskByID = ''/dev/disk/by-id''"

definition diskByDeviceName :: string where
  "diskByDeviceName = ''/dev''"

definition BlockDevicePath :: "BlockDevice \<Rightarrow> string \<times> go_error option" where
  "BlockDevicePath device =
     (if Serial device \<noteq> [] then (filepath_Join [diskByID, Serial device], None)
      else if DeviceName device \<noteq> [] then
        (filepath_Join [diskByDeviceName, DeviceName device], None)
      else ([], Some (Errorf ''could not determine path for block device'')))"

text \<open>A path element that \<^verbatim>\<open>Clean\<close> keeps as it is: no separator in it, and not
  one of the special elements.\<close>

definition plain_elem :: "string \<Rightarrow> bool" where
  "plain_elem e \<longleftrightarrow> e \<noteq> [] \<and> e \<noteq> ''.'' \<and> e \<noteq> ''..'' \<and> CHR ''/'' \<notin> set e"

section \<open>HTTP storage backend (package httpstorage)\<close>

text \<open>
  The message of an error value (\<^verbatim>\<open>fmt.Sprint(err)\<close>).
\<close>

fun error_message :: "go_error \<Rightarrow> string" where
  "error_message (Errorf m) = m"

text \<open>
  An \<^verbatim>\<open>http.Request\<close>, with the fields \<^verbatim>\<open>ServeHTTP\<close> and its handlers read:
  the method, \<^verbatim>\<open>req.URL.Path\<close>, the parsed query \<^verbatim>\<open>req.URL.Query()\<close> as its
  key/value pairs in the order of the URL, the content length and the body.
  \<^verbatim>\<open>Values.Get(key)\<close> is the first value of the key, or the empty string.
\<close>

record Request =
  Method :: string
  Path :: string
  Query :: "(string \<times> string) list"
  ContentLength :: int
  Body :: string

definition Values_Get :: "(string \<times> string) list \<Rightarrow> string \<Rightarrow> string" where
  "Values_Get vs key = (case map_of vs key of None \<Rightarrow> [] | Some v \<Rightarrow> v)"

text \<open>
  An \<^verbatim>\<open>http.ResponseWriter\<close> as the response written so far: the status code
  (\<open>None\<close> until the header is written), the header fields and the body.
  \<^verbatim>\<open>WriteHeader\<close> takes effect once; \<^verbatim>\<open>Write\<close> writes status 200 first when no
  header was written; \<^verbatim>\<open>http.Error\<close> sets the plain-text content type, writes the
  header with the code, and prints the message and a newline.
\<close>

record ResponseWriter =
  status :: "nat option"
  header :: "(string \<times> string) list"
  body :: string

definition Header_Set :: "ResponseWriter \<Rightarrow> string \<Rightarrow> string \<Rightarrow> ResponseWriter" where
  "Header_Set w k v = w\<lparr>header := (k, v) # filter (\<lambda>kv. fst kv \<noteq> k) (header w)\<rparr>"

definition WriteHeader :: "ResponseWriter \<Rightarrow> nat \<Rightarrow> ResponseWriter" where
  "WriteHeader w code = (if status w = None then w\<lparr>status := Some code\<rparr> else w)"

definition StatusOK :: nat where "StatusOK = 200"
definition StatusCreated :: nat where "StatusCreated = 201"
definition StatusUnauthorized :: nat where "StatusUnauthorized = 401"
definition StatusNotFound :: nat where "StatusNotFound = 404"
definition StatusMethodNotAllowed :: nat where "StatusMethodNotAllowed = 405"
definition StatusInternalServerError :: nat where "StatusInternalServerError = 500"

definition Write :: "ResponseWriter \<Rightarrow> string \<Rightarrow> ResponseWriter" where
  "Write w data = (let w' = WriteHeader w StatusOK in w'\<lparr>body := body w' @ data\<rparr>)"

definition http_Error :: "ResponseWriter \<Rightarrow> string \<Rightarrow> nat \<Rightarrow> ResponseWriter" where
  "http_Error w msg code =
     Write (WriteHeader
              (Header_Set (Header_Set w ''Content-Type'' ''text/plain; charset=utf-8'')
                 ''X-Content-Type-Options'' ''nosniff'')
              code)
           (msg @ [CHR 0x0A])"

text \<open>
  The interface \<^verbatim>\<open>storage.Storage\<close>, as far as the handlers call it. Its
  implementations are outside this package, so the model takes the methods as
  functions on the store's state \<open>'b\<close>: \<^verbatim>\<open>Get\<close> returns an error or a reader
  (itself an error or the contents, what \<^verbatim>\<open>ioutil.ReadAll\<close> gives), \<^verbatim>\<open>List\<close> an
  error or the names, \<^verbatim>\<open>Put\<close> and \<^verbatim>\<open>Remove\<close> an optional error and the new state.
\<close>

record 'b Storage =
  storage_Get :: "'b \<Rightarrow> string \<Rightarrow> go_error + (go_error + string)"
  storage_List :: "'b \<Rightarrow> string \<Rightarrow> go_error + string list"
  storage_Put :: "'b \<Rightarrow> string \<Rightarrow> string \<Rightarrow> int \<Rightarrow> go_error option \<times> 'b"
  storage_Remove :: "'b \<Rightarrow> string \<Rightarrow> go_error option \<times> 'b"

record 'b storageBackend =
  backend :: "'b Storage"
  httpsBaseURL :: string
  authkey :: string

text \<open>
  \<^verbatim>\<open>
  func (s *storageBackend) authorised(req *http.Request) bool {
      if s.authkey == "" {
          return true
      }
      return req.URL.Query().Get("authkey") == s.authkey
  }
  \<close>
\<close>

definition authorised :: "'b storageBackend \<Rightarrow> Request \<Rightarrow> bool" where
  "authorised s req =
     (if authkey s = [] then True
      else Values_Get (Query req) ''authkey'' = authkey s)"

text \<open>
  The handlers. Each takes the backend, the store's state and the response so far,
  and returns the response and the store's new state; \<open>None\<close> is a run-time panic
  (a slice of the path out of its bounds: \<^verbatim>\<open>Path[1:]\<close> on an empty path,
  \<^verbatim>\<open>prefix[1 : len(prefix)-1]\<close> on a path of one byte).
\<close>

definition handleHead ::
  "'b storageBackend \<Rightarrow> 'b \<Rightarrow> ResponseWriter \<Rightarrow> Request \<Rightarrow> (ResponseWriter \<times> 'b) option" where
  "handleHead s b w req =
     (if httpsBaseURL s \<noteq> []
      then Some (WriteHeader (Header_Set w ''Location'' (httpsBaseURL s @ Path req)) StatusOK, b)
      else Some (http_Error w ''method HEAD is not supported'' StatusMethodNotAllowed, b))"

definition handleGet ::
  "'b storageBackend \<Rightarrow> 'b \<Rightarrow> ResponseWriter \<Rightarrow> Request \<Rightarrow> (ResponseWriter \<times> 'b) option" where
  "handleGet s b w req =
     (if Path req = [] then None
      else (case storage_Get (backend s) b (drop 1 (Path req)) of
              Inl err \<Rightarrow> Some (http_Error w (error_message err) StatusNotFound, b)
            | Inr readcloser \<Rightarrow>
                (case readcloser of
                   Inl err \<Rightarrow> Some (http_Error w (error_message err) StatusInternalServerError, b)
                 | Inr data \<Rightarrow>
                     Some (Write (Header_Set w ''Content-Type'' ''application/octet-stream'') data, b))))"

definition handleList ::
  "'b storageBackend \<Rightarrow> 'b \<Rightarrow> ResponseWriter \<Rightarrow> Request \<Rightarrow> (ResponseWriter \<times> 'b) option" where
  "handleList s b w req =
     (if length (Path req) < 2 then None
      else (case storage_List (backend s) b (butlast (drop 1 (Path req))) of
              Inl err \<Rightarrow> Some (http_Error w (error_message err) StatusInternalServerError, b)
            | Inr names \<Rightarrow>
                Some (Write (Header_Set w ''Content-Type'' ''application/octet-stream'')
                        (strings_Join names [CHR 0x0A]), b)))"

definition handlePut ::
  "'b storageBackend \<Rightarrow> 'b \<Rightarrow> ResponseWriter \<Rightarrow> Request \<Rightarrow> (ResponseWriter \<times> 'b) option" where
  "handlePut s b w req =
     (if ContentLength req < 0
      then Some (http_Error w ''missing or invalid Content-Length header'' StatusInternalServerError, b)
      else if Path req = [] then None
      else (case storage_Put (backend s) b (drop 1 (Path req)) (Body req) (ContentLength req) of
              (Some err, b') \<Rightarrow> Some (http_Error w (error_message err) StatusInternalServerError, b')
            | (None, b') \<Rightarrow> Some (WriteHeader w StatusCreated, b')))"

definition handleDelete ::
  "'b storageBackend \<Rightarrow> 'b \<Rightarrow> ResponseWriter \<Rightarrow> Request \<Rightarrow> (ResponseWriter \<times> 'b) option" where
  "handleDelete s b w req =
     (if \<not> authorised s req
      then Some (http_Error w ''unauthorised access'' StatusUnauthorized, b)
      else if Path req = [] then None
      else (case storage_Remove (backend s) b (drop 1 (Path req)) of
              (Some err, b') \<Rightarrow> Some (http_Error w (error_message err) StatusInternalServerError, b')
            | (None, b') \<Rightarrow> Some (WriteHeader w StatusOK, b')))"

text \<open>
  \<^verbatim>\<open>
  func (s *storageBackend) ServeHTTP(w http.ResponseWriter, req *http.Request) {
      switch req.Method {
      case "PUT", "DELETE":
          if s.httpsBaseURL != "" || !s.authorised(req) {
              http.Error(w, "unauthorised access", http.StatusUnauthorized)
              return
          }
      }
      switch req.Method {
      case "GET":
          if strings.HasSuffix(req.URL.Path, "*") { s.handleList(w, req) }
          else { s.handleGet(w, req) }
      case "HEAD":   s.handleHead(w, req)
      case "PUT":    s.handlePut(w, req)
      case "DELETE": s.handleDelete(w, req)
      default:
          http.Error(w, "method "+req.Method+" is not supported", http.StatusMethodNotAllowed)
      }
  }
  \<close>
\<close>

definition ServeHTTP ::
  "'b storageBackend \<Rightarrow> 'b \<Rightarrow> ResponseWriter \<Rightarrow> Request \<Rightarrow> (ResponseWriter \<times> 'b) option" where
  "ServeHTTP s b w req =
     (if (Method req = ''PUT'' \<or> Method req = ''DELETE'') \<and>
         (httpsBaseURL s \<noteq> [] \<or> \<not> authorised s req)
      then Some (http_Error w ''unauthorised access'' StatusUnauthorized, b)
      else if Method req = ''GET'' then
        (if suffix ''*'' (Path req) then handleList s b w req else handleGet s b w req)
      else if Method req = ''HEAD'' then handleHead s b w req
      else if Method req = ''PUT'' then handlePut s b w req
      else if Method req = ''DELETE'' then handleDelete s b w req
      else Some (http_Error w (''method '' @ Method req @ '' is not supported'')
                   StatusMethodNotAllowed, b))"

text \<open>
  A store kept in memory, for running the handlers on concrete requests: the files
  as name/contents pairs. \<^verbatim>\<open>Get\<close> of a missing name is an error; \<^verbatim>\<open>Put\<close> replaces
  the file; \<^verbatim>\<open>Remove\<close> deletes it.
\<close>

type_synonym mem_store = "(string \<times> string) list"

definition mem_Storage :: "mem_store Storage" where
  "mem_Storage =
     \<lparr>storage_Get = (\<lambda>b name. case map_of b name of
                        None \<Rightarrow> Inl (Errorf (''file '' @ name @ '' not found''))
                      | Some data \<Rightarrow> Inr (Inr data)),
      storage_List = (\<lambda>b pre. Inr (filter (prefix pre) (map fst b))),
      storage_Put = (\<lambda>b name data n. (None, (name, data) # filter (\<lambda>kv. fst kv \<noteq> name) b)),
      storage_Remove = (\<lambda>b name. (None, filter (\<lambda>kv. fst kv \<noteq> name) b))\<rparr>"

definition new_ResponseWriter :: ResponseWriter where
  "new_ResponseWriter = \<lparr>status = None, header = [], body = []\<rparr>"

section \<open>Leadership wire types (package params)\<close>

text \<open>
  Modelled from the spec: the type \<^verbatim>\<open>params.Error\<close>, which the result types point
  to, is declared in a file of the package that is not among the sources. It is
  modelled by the spec's error taxonomy (spec section 7), with the remote-call
  facade's class \<^verbatim>\<open>Other\<close> (spec section 6) carrying its message.
\<close>

datatype Error = LeaseHeld | NotLeader | NotFound | Unauthorized | Transient | Invalid
  | Other string

text \<open>
  \<^verbatim>\<open>Settings\<close> is a Go \<^verbatim>\<open>map[string]string\<close> (spec section 6), and
  \<^verbatim>\<open>float64\<close> is modelled by the real number a finite value of it denotes; no
  floating-point arithmetic is performed on it here.
\<close>

type_synonym Settings = "string \<rightharpoonup> string"

type_synonym float64 = real

text \<open>
  The structs of the package, field by field; a pointer \<^verbatim>\<open>*Error\<close> is an option
  (\<open>None\<close> for \<^verbatim>\<open>nil\<close>), a slice is a list. \<^verbatim>\<open>ReleaseLeadershipBulkResults\<close> is
  declared as \<^verbatim>\<open>ErrorResults\<close>, a list of \<^verbatim>\<open>{Error}\<close> results (spec section 6).
\<close>

record ClaimLeadershipParams =
  ServiceTag :: string
  UnitTag :: string

record ClaimLeadershipBulkParams =
  Params :: "ClaimLeadershipParams list"

record ClaimLeadershipResults =
  ServiceTag :: string
  ClaimDurationInSec :: float64
  Error :: "Error option"

record ClaimLeadershipBulkResults =
  Results :: "ClaimLeadershipResults list"

record ReleaseLeadershipParams =
  ServiceTag :: string
  UnitTag :: string

record ReleaseLeadershipBulkParams =
  Params :: "ReleaseLeadershipParams list"

record ErrorResult =
  Error :: "Error option"

record ReleaseLeadershipBulkResults =
  Results :: "ErrorResult list"

record GetLeadershipSettingsResult =
  Settings :: Settings
  Error :: "Error option"

record GetLeadershipSettingsBulkResults =
  Results :: "GetLeadershipSettingsResult list"

record MergeLeadershipSettingsParam =
  ServiceTag :: string
  Settings :: Settings

record MergeLeadershipSettingsBulkParams =
  Params :: "MergeLeadershipSettingsParam list"

section \<open>Leadership Lease Coordinator\<close>

text \<open>
  Modelled from the spec: the coordinator's operations (spec sections 3 and 4.1).
  The repository's sources hold only the wire types of its bulk calls, not the
  code that grants, renews and releases leases, so the definitions below follow
  the spec's words.

  The owned table has one entry per \<^verbatim>\<open>ServiceID\<close>: the holder and the expiry
  timestamp. An empty \<^verbatim>\<open>HolderUnitID\<close> means unheld, and a lease whose expiry has
  been reached is treated as unheld wherever it is read (lazy expiry, no reaper).
  Timestamps and durations are integers of one clock unit; \<open>now\<close> is read from the
  injected clock by the caller and passed in.
\<close>

record ServiceLeadershipLease =
  HolderUnitID :: string
  ExpiryTimestamp :: int

record Coordinator =
  leases :: "string \<rightharpoonup> ServiceLeadershipLease"
  settings :: "string \<Rightarrow> Settings"
  maxDuration :: int

definition new_Coordinator :: "int \<Rightarrow> Coordinator" where
  "new_Coordinator maxd = \<lparr>leases = Map.empty, settings = (\<lambda>svc. Map.empty), maxDuration = maxd\<rparr>"

text \<open>Modelled from the spec: the unexpired lease on the service at the instant
  \<open>now\<close>, and the unit that holds it (spec section 3: an empty holder means
  unheld, an expired lease is treated as unheld).\<close>

definition current_lease :: "Coordinator \<Rightarrow> int \<Rightarrow> string \<Rightarrow> ServiceLeadershipLease option" where
  "current_lease c now serviceID =
     (case leases c serviceID of
        None \<Rightarrow> None
      | Some l \<Rightarrow>
          if HolderUnitID l \<noteq> [] \<and> now < ExpiryTimestamp l then Some l
          else None)"

definition current_holder :: "Coordinator \<Rightarrow> int \<Rightarrow> string \<Rightarrow> string option" where
  "current_holder c now serviceID = map_option HolderUnitID (current_lease c now serviceID)"

definition holds_lease :: "Coordinator \<Rightarrow> int \<Rightarrow> string \<Rightarrow> string \<Rightarrow> bool" where
  "holds_lease c now serviceID unitID \<longleftrightarrow> current_holder c now serviceID = Some unitID"

definition expiry_of :: "Coordinator \<Rightarrow> string \<Rightarrow> int option" where
  "expiry_of c serviceID = map_option ExpiryTimestamp (leases c serviceID)"

text \<open>
  Modelled from the spec: \<^verbatim>\<open>ClaimLeadership(serviceID, unitID, requestedDuration)\<close>
  (spec section 4.1). Held by a different,
  unexpired unit: \<^verbatim>\<open>LeaseHeld\<close>, nothing changes. A malformed request (an empty
  identifier, a duration that is not positive): \<^verbatim>\<open>Invalid\<close>. Held by the caller:
  a renewal, which extends the expiry and never shortens it. Unheld or expired: a
  grant, with expiry \<open>now + min requestedDuration maxDuration\<close>. The result is the
  duration granted, counted from \<open>now\<close>.
\<close>

definition ClaimLeadership ::
  "Coordinator \<Rightarrow> int \<Rightarrow> string \<Rightarrow> string \<Rightarrow> int \<Rightarrow> Coordinator \<times> (Error + int)" where
  "ClaimLeadership c now serviceID unitID requestedDuration =
     (let malformed = (serviceID = [] \<or> unitID = [] \<or> requestedDuration \<le> 0);
          granted = now + min requestedDuration (maxDuration c)
      in case current_lease c now serviceID of
           Some l \<Rightarrow>
             if HolderUnitID l \<noteq> unitID then (c, Inl LeaseHeld)
             else if malformed then (c, Inl Invalid)
             else
               let e = max (ExpiryTimestamp l) granted
               in (c\<lparr>leases := (leases c)(serviceID \<mapsto>
                       \<lparr>HolderUnitID = unitID, ExpiryTimestamp = e\<rparr>)\<rparr>,
                   Inr (e - now))
         | None \<Rightarrow>
             if malformed then (c, Inl Invalid)
             else (c\<lparr>leases := (leases c)(serviceID \<mapsto>
                       \<lparr>HolderUnitID = unitID, ExpiryTimestamp = granted\<rparr>)\<rparr>,
                   Inr (granted - now)))"


text \<open>
  Modelled from the spec: \<^verbatim>\<open>GetLeadershipSettings\<close> and
  \<^verbatim>\<open>MergeLeadershipSettings\<close> (spec section 4.1). The merge is
  field-wise: a key of \<open>updates\<close> with a non-empty value overwrites, a key mapped
  to the empty string is deleted, a key absent from \<open>updates\<close> is untouched.
\<close>

definition GetLeadershipSettings :: "Coordinator \<Rightarrow> string \<Rightarrow> Settings" where
  "GetLeadershipSettings c serviceID = settings c serviceID"

definition merge_settings :: "Settings \<Rightarrow> Settings \<Rightarrow> Settings" where
  "merge_settings stored updates =
     (\<lambda>k. case updates k of
             None \<Rightarrow> stored k
           | Some v \<Rightarrow> if v = [] then None else Some v)"

definition MergeLeadershipSettings ::
  "Coordinator \<Rightarrow> int \<Rightarrow> string \<Rightarrow> string \<Rightarrow> Settings \<Rightarrow> Coordinator \<times> Error option" where
  "MergeLeadershipSettings c now serviceID unitID updates =
     (if current_holder c now serviceID = Some unitID
      then (c\<lparr>settings := (settings c)(serviceID :=
                merge_settings (settings c serviceID) updates)\<rparr>, None)
      else (c, Some NotLeader))"

text \<open>
  Modelled from the spec: claims on one service taken one after the other at the same instant (a
  linearisation of concurrent claims), with the units whose claim succeeded.
\<close>

fun claim_all ::
  "Coordinator \<Rightarrow> int \<Rightarrow> string \<Rightarrow> (string \<times> int) list \<Rightarrow> Coordinator \<times> string list" where
  "claim_all c now serviceID [] = (c, [])"
| "claim_all c now serviceID ((unitID, d) # rest) =
     (case ClaimLeadership c now serviceID unitID d of
        (c', Inl err) \<Rightarrow> claim_all c' now serviceID rest
      | (c', Inr granted) \<Rightarrow>
          (case claim_all c' now serviceID rest of
             (c'', winners) \<Rightarrow> (c'', unitID # winners)))"

text \<open>
  Modelled from the spec: the bulk variants (spec sections 4.1 and 8). The code
  that serves the bulk calls is not among the sources. The elements are taken in the order of the request, each by
  the single operation on the state the earlier elements left, and each element
  gets its own result. The bulk claim requests the same duration for every
  element (the wire type carries none) and reports the granted duration in
  seconds.
\<close>

fun each_element :: "('s \<Rightarrow> 'p \<Rightarrow> 's \<times> 'r) \<Rightarrow> 's \<Rightarrow> 'p list \<Rightarrow> 's \<times> 'r list" where
  "each_element f c [] = (c, [])"
| "each_element f c (p # ps) =
     (case f c p of
        (c', r) \<Rightarrow>
          (case each_element f c' ps of
             (c'', rs) \<Rightarrow> (c'', r # rs)))"

definition claim_result ::
  "ClaimLeadershipParams \<Rightarrow> Error + int \<Rightarrow> ClaimLeadershipResults" where
  "claim_result p r =
     (case r of
        Inl err \<Rightarrow> \<lparr>ClaimLeadershipResults.ServiceTag = ClaimLeadershipParams.ServiceTag p,
                    ClaimDurationInSec = 0, Error = Some err\<rparr>
      | Inr granted \<Rightarrow> \<lparr>ClaimLeadershipResults.ServiceTag = ClaimLeadershipParams.ServiceTag p,
                        ClaimDurationInSec = of_int granted, Error = None\<rparr>)"

definition claim_one ::
  "int \<Rightarrow> int \<Rightarrow> Coordinator \<Rightarrow> ClaimLeadershipParams \<Rightarrow> Coordinator \<times> ClaimLeadershipResults" where
  "claim_one now d c p =
     (case ClaimLeadership c now (ClaimLeadershipParams.ServiceTag p)
             (ClaimLeadershipParams.UnitTag p) d of
        (c', r) \<Rightarrow> (c', claim_result p r))"

definition ClaimLeadershipBulk ::
  "Coordinator \<Rightarrow> int \<Rightarrow> int \<Rightarrow> ClaimLeadershipBulkParams \<Rightarrow>
     Coordinator \<times> ClaimLeadershipBulkResults" where
  "ClaimLeadershipBulk c now d args =
     (case each_element (claim_one now d) c (ClaimLeadershipBulkParams.Params args) of
        (c', rs) \<Rightarrow> (c', \<lparr>ClaimLeadershipBulkResults.Results = rs\<rparr>))"



text \<open>Modelled from the spec: the per-element outcomes of a bulk request, and the
  state it leaves.\<close>

definition claim_outcomes ::
  "Coordinator \<Rightarrow> int \<Rightarrow> int \<Rightarrow> ClaimLeadershipParams list \<Rightarrow> ClaimLeadershipResults list" where
  "claim_outcomes c now d ps =
     ClaimLeadershipBulkResults.Results
       (snd (ClaimLeadershipBulk c now d \<lparr>ClaimLeadershipBulkParams.Params = ps\<rparr>))"






section \<open>Worker Execution Engine\<close>

text \<open>
  Modelled from the spec: the engine, the workers built on it and the value
  \<^verbatim>\<open>worker.ErrTerminateAgent\<close> (spec sections 4.2, 6 and 7). Of package worker
  the sources hold only a test of the machiner (machiner_test.go), which expects
  \<^verbatim>\<open>Wait()\<close> to return \<^verbatim>\<open>worker.ErrTerminateAgent\<close>; the engine and the machiner
  are not among them, so the definitions below follow the spec's words.

  An error a handler can return: the distinguished terminate-permanently signal,
  the error of a remote call, or any other error.
\<close>

datatype worker_error = ErrTerminateAgent | CallError Error | HandlerError string

text \<open>
  Modelled from the spec: the handler contract (spec section 4.2): \<^verbatim>\<open>SetUp\<close>, \<^verbatim>\<open>HandleChange\<close> and \<^verbatim>\<open>TearDown\<close>, as
  functions on the handler's own state \<open>'h\<close>; the first two may return an error.
\<close>

record 'h Handler =
  SetUp :: "'h \<Rightarrow> worker_error option \<times> 'h"
  HandleChange :: "'h \<Rightarrow> worker_error option \<times> 'h"
  TearDown :: "'h \<Rightarrow> 'h"

text \<open>
  Modelled from the spec: what the running worker waits for (spec section 4.2): the next notification or a stop request. A
  handle is in one of the spec's states; \<^verbatim>\<open>Stopped\<close> carries the final result
  (\<open>None\<close> for a nil error). The handle also counts the calls of \<^verbatim>\<open>TearDown\<close>.
\<close>

datatype event = Notification | StopRequest

datatype WorkerState = Starting | Running | Stopping | Stopped "worker_error option"

record 'h WorkerHandle =
  state :: WorkerState
  handler_state :: 'h
  teardowns :: nat

text \<open>Modelled from the spec: every exit path runs \<^verbatim>\<open>TearDown\<close> once, then \<^verbatim>\<open>Stopped\<close> becomes observable.\<close>

definition stop_with :: "'h Handler \<Rightarrow> 'h \<Rightarrow> worker_error option \<Rightarrow> 'h WorkerHandle" where
  "stop_with H h result =
     \<lparr>state = Stopped result, handler_state = TearDown H h, teardowns = 1\<rparr>"

text \<open>
  Modelled from the spec: the running state: one \<^verbatim>\<open>HandleChange\<close> per notification, one at a time; a stop
  request stops the worker with a nil result; an error of \<^verbatim>\<open>HandleChange\<close> stops
  it with that error. With no event left the worker is still running.
\<close>

fun running :: "'h Handler \<Rightarrow> 'h \<Rightarrow> event list \<Rightarrow> 'h WorkerHandle" where
  "running H h [] = \<lparr>state = Running, handler_state = h, teardowns = 0\<rparr>"
| "running H h (StopRequest # es) = stop_with H h None"
| "running H h (Notification # es) =
     (case HandleChange H h of
        (Some err, h') \<Rightarrow> stop_with H h' (Some err)
      | (None, h') \<Rightarrow> running H h' es)"

text \<open>
  Modelled from the spec: the worker from \<^verbatim>\<open>Start\<close> on, after the events \<open>es\<close> have reached it: \<^verbatim>\<open>SetUp\<close>
  first, then the running state with one synthetic notification before the
  received ones. \<^verbatim>\<open>Wait\<close> yields the final result once the handle is stopped, and
  blocks (\<open>None\<close>) until then.
\<close>

definition Start :: "'h Handler \<Rightarrow> 'h \<Rightarrow> event list \<Rightarrow> 'h WorkerHandle" where
  "Start H h es =
     (case SetUp H h of
        (Some err, h') \<Rightarrow> stop_with H h' (Some err)
      | (None, h') \<Rightarrow> running H h' (Notification # es))"

definition Wait :: "'h WorkerHandle \<Rightarrow> worker_error option option" where
  "Wait w = (case state w of Stopped result \<Rightarrow> Some result | _ \<Rightarrow> None)"

text \<open>Modelled from the spec: the handler's state after \<open>k\<close> calls of \<^verbatim>\<open>HandleChange\<close> that all succeed.\<close>

fun changes :: "'h Handler \<Rightarrow> 'h \<Rightarrow> nat \<Rightarrow> 'h option" where
  "changes H h 0 = Some h"
| "changes H h (Suc k) =
     (case HandleChange H h of
        (Some err, h') \<Rightarrow> None
      | (None, h') \<Rightarrow> changes H h' k)"

text \<open>
  Modelled from the spec: a worker for one entity of the state, like the machiner
  (spec section 6): \<^verbatim>\<open>SetUp\<close> and every
  \<^verbatim>\<open>HandleChange\<close> make a remote call for the worker's own entity. The handler's
  state is the results of the calls still to come (\<open>None\<close> for success, all
  successes once the list is used up). An error of class \<^verbatim>\<open>NotFound\<close> or
  \<^verbatim>\<open>Unauthorized\<close> becomes the terminate-permanently signal; any other error is
  returned as it is.
\<close>

definition own_entity_error :: "Error \<Rightarrow> worker_error" where
  "own_entity_error e =
     (if e = NotFound \<or> e = Unauthorized then ErrTerminateAgent else CallError e)"

definition call_own_entity :: "Error option list \<Rightarrow> worker_error option \<times> Error option list" where
  "call_own_entity calls =
     (case calls of
        [] \<Rightarrow> (None, [])
      | r # rest \<Rightarrow> (map_option own_entity_error r, rest))"

definition entity_handler :: "(Error option list) Handler" where
  "entity_handler =
     \<lparr>SetUp = call_own_entity, HandleChange = call_own_entity, TearDown = (\<lambda>calls. calls)\<rparr>"

section \<open>Entity names: properties\<close>

lemma Sprintf_machine: "Sprintf ''machine-%s'' (Some mid) = ''machine-'' @ mid"
  by simp

lemma strings_Replace_slash:
  "strings_Replace s ''/'' ''-'' = slashes_to_dashes s"
  by (induction s) (auto simp: slashes_to_dashes_def)

lemma UnitEntityName_eq: "UnitEntityName n = ''unit-'' @ slashes_to_dashes n"
  by (simp add: UnitEntityName_def strings_Replace_slash)

lemma MachineEntityName_eq: "MachineEntityName mid = ''machine-'' @ mid"
  by (simp add: MachineEntityName_def)

text \<open>
  C7. Entity tags have the form \<^verbatim>\<open><kind>-<id>\<close>: \<^verbatim>\<open>MachineEntityName(id)\<close> is
  \<^verbatim>\<open>"machine-"\<close> followed by the id, and \<^verbatim>\<open>UnitEntityName(unitName)\<close> is
  \<^verbatim>\<open>"unit-"\<close> followed by the unit name with every \<^verbatim>\<open>/\<close> replaced by \<^verbatim>\<open>-\<close>.
  The left-hand sides are the code (\<^verbatim>\<open>fmt.Sprintf\<close>, \<^verbatim>\<open>strings.Replace\<close>); the
  right-hand sides are the spec's words.
\<close>

theorem entity_name_form:
  "MachineEntityName mid = ''machine-'' @ mid \<and>
   UnitEntityName unitName = ''unit-'' @ slashes_to_dashes unitName \<and>
   length (slashes_to_dashes unitName) = length unitName \<and>
   CHR ''/'' \<notin> set (slashes_to_dashes unitName)"
  by (auto simp: MachineEntityName_eq UnitEntityName_eq slashes_to_dashes_def)

subsection \<open>Uniqueness of entity names\<close>

lemma last_sep_unique:
  "xs @ a # ys = xs' @ a # ys' \<Longrightarrow> a \<notin> set ys \<Longrightarrow> a \<notin> set ys' \<Longrightarrow> xs = xs' \<and> ys = ys'"
proof (induction xs arbitrary: xs')
  case Nil
  then show ?case by (cases xs') auto
next
  case (Cons x t)
  then show ?case by (cases xs') auto
qed

lemma unit_name_shape_split:
  assumes "unit_name_shape n"
  shows "\<exists>s k. n = s @ CHR ''/'' # k \<and> CHR ''/'' \<notin> set s \<and> CHR ''/'' \<notin> set k \<and> CHR ''-'' \<notin> set k"
proof -
  let ?s = "takeWhile (\<lambda>c. c \<noteq> CHR ''/'') n"
  let ?d = "dropWhile (\<lambda>c. c \<noteq> CHR ''/'') n"
  have n: "n = ?s @ ?d" by simp
  have f1: "length (filter (\<lambda>c. c = CHR ''/'') n) = 1"
    and dash: "CHR ''-'' \<notin> set (drop 1 ?d)"
    using assms by (simp_all add: unit_name_shape_def)
  have s: "CHR ''/'' \<notin> set ?s"
    by (auto dest: set_takeWhileD)
  then have fs: "filter (\<lambda>c. c = CHR ''/'') ?s = []"
    by (auto simp: filter_empty_conv)
  have "filter (\<lambda>c. c = CHR ''/'') n = filter (\<lambda>c. c = CHR ''/'') ?s @ filter (\<lambda>c. c = CHR ''/'') ?d"
    by (metis filter_append n)
  with f1 fs have fd: "length (filter (\<lambda>c. c = CHR ''/'') ?d) = 1"
    by simp
  then have "?d \<noteq> []" by (cases ?d) simp_all
  then have "hd ?d = CHR ''/''"
    using hd_dropWhile[of "\<lambda>c. c \<noteq> CHR ''/''" n] by simp
  with \<open>?d \<noteq> []\<close> obtain k where d: "?d = CHR ''/'' # k"
    by (cases ?d) auto
  with fd have "filter (\<lambda>c. c = CHR ''/'') k = []" by simp
  then have k: "CHR ''/'' \<notin> set k"
    by (auto simp: filter_empty_conv)
  from dash d have "CHR ''-'' \<notin> set k" by simp
  with n d s k show ?thesis by metis
qed

lemma slashes_to_dashes_id: "CHR ''/'' \<notin> set s \<Longrightarrow> slashes_to_dashes s = s"
  by (induction s) (auto simp: slashes_to_dashes_def)

lemma slashes_to_dashes_append:
  "slashes_to_dashes (s @ t) = slashes_to_dashes s @ slashes_to_dashes t"
  by (simp add: slashes_to_dashes_def)

lemma slashes_to_dashes_slash:
  "slashes_to_dashes (CHR ''/'' # t) = CHR ''-'' # slashes_to_dashes t"
  by (simp add: slashes_to_dashes_def)

lemma slashes_to_dashes_inj_on_shape:
  assumes "unit_name_shape n1" "unit_name_shape n2"
    and eq: "slashes_to_dashes n1 = slashes_to_dashes n2"
  shows "n1 = n2"
proof -
  from assms(1) obtain s1 k1 where 1: "n1 = s1 @ CHR ''/'' # k1" "CHR ''/'' \<notin> set s1"
    "CHR ''/'' \<notin> set k1" "CHR ''-'' \<notin> set k1"
    using unit_name_shape_split by blast
  from assms(2) obtain s2 k2 where 2: "n2 = s2 @ CHR ''/'' # k2" "CHR ''/'' \<notin> set s2"
    "CHR ''/'' \<notin> set k2" "CHR ''-'' \<notin> set k2"
    using unit_name_shape_split by blast
  have "slashes_to_dashes n1 = s1 @ CHR ''-'' # k1"
    using 1 by (simp add: slashes_to_dashes_append slashes_to_dashes_slash slashes_to_dashes_id)
  moreover have "slashes_to_dashes n2 = s2 @ CHR ''-'' # k2"
    using 2 by (simp add: slashes_to_dashes_append slashes_to_dashes_slash slashes_to_dashes_id)
  ultimately have "s1 @ CHR ''-'' # k1 = s2 @ CHR ''-'' # k2"
    using eq by simp
  then have "s1 = s2 \<and> k1 = k2"
    using 1(4) 2(4) by (rule last_sep_unique)
  with 1(1) 2(1) show ?thesis by simp
qed

lemma UnitEntityName_inj_on_shape:
  "unit_name_shape n1 \<Longrightarrow> unit_name_shape n2 \<Longrightarrow> UnitEntityName n1 = UnitEntityName n2 \<Longrightarrow> n1 = n2"
  by (simp add: UnitEntityName_eq slashes_to_dashes_inj_on_shape)

lemma unit_not_machine: "UnitEntityName n \<noteq> MachineEntityName mid"
  by (simp add: UnitEntityName_eq MachineEntityName_eq)

text \<open>
  C9, as stated, fails: \<^verbatim>\<open>UnitEntityName\<close> is not injective on arbitrary strings,
  because a \<^verbatim>\<open>/\<close> and a \<^verbatim>\<open>-\<close> at the same position give the same tag.
\<close>

theorem unit_entity_name_collision:
  "''wordpress/0'' \<noteq> ''wordpress-0'' \<and>
   UnitEntityName ''wordpress/0'' = UnitEntityName ''wordpress-0''"
  by (simp add: UnitEntityName_eq slashes_to_dashes_def)

text \<open>
  C9, amended. For unit names of the form \<^verbatim>\<open><service>/<number>\<close> (exactly one
  \<^verbatim>\<open>/\<close>, no \<^verbatim>\<open>-\<close> after it) distinct names give distinct tags, and the tag of
  such a unit differs from the tag of every other entity: every machine, and every
  other unit of that form. So among machines and units of that form, distinct
  entities have distinct tags.
\<close>

theorem entity_names_unique:
  "(unit_name_shape n1 \<and> unit_name_shape n2 \<and> n1 \<noteq> n2 \<longrightarrow>
      UnitEntityName n1 \<noteq> UnitEntityName n2) \<and>
   (unit_name_shape n \<and> entity_wf e \<and> e \<noteq> Unit n \<longrightarrow>
      EntityName (Unit n) \<noteq> EntityName e) \<and>
   (entity_wf e1 \<and> entity_wf e2 \<and> e1 \<noteq> e2 \<longrightarrow> EntityName e1 \<noteq> EntityName e2)"
proof (intro conjI impI)
  assume "unit_name_shape n1 \<and> unit_name_shape n2 \<and> n1 \<noteq> n2"
  then show "UnitEntityName n1 \<noteq> UnitEntityName n2"
    using UnitEntityName_inj_on_shape by blast
next
  assume a: "unit_name_shape n \<and> entity_wf e \<and> e \<noteq> Unit n"
  show "EntityName (Unit n) \<noteq> EntityName e"
  proof (cases e)
    case (Machine mid)
    then show ?thesis by (simp add: unit_not_machine)
  next
    case (Unit m)
    with a have "unit_name_shape m" "m \<noteq> n" by auto
    with a Unit show ?thesis
      using UnitEntityName_inj_on_shape[of n m] by auto
  qed
next
  assume a: "entity_wf e1 \<and> entity_wf e2 \<and> e1 \<noteq> e2"
  show "EntityName e1 \<noteq> EntityName e2"
  proof (cases e1; cases e2)
    fix m1 m2 assume "e1 = Machine m1" "e2 = Machine m2"
    with a show ?thesis by (simp add: MachineEntityName_eq)
  next
    fix m1 u2 assume "e1 = Machine m1" "e2 = Unit u2"
    then show ?thesis using unit_not_machine[of u2 m1] by simp
  next
    fix u1 m2 assume "e1 = Unit u1" "e2 = Machine m2"
    then show ?thesis using unit_not_machine[of u1 m2] by simp
  next
    fix u1 u2 assume "e1 = Unit u1" "e2 = Unit u2"
    with a show ?thesis using UnitEntityName_inj_on_shape[of u1 u2] by auto
  qed
qed

theorem entity_names_unique_witness:
  "unit_name_shape ''wordpress/0'' \<and> unit_name_shape ''wordpress/1'' \<and>
   ''wordpress/0'' \<noteq> ''wordpress/1'' \<and>
   UnitEntityName ''wordpress/0'' \<noteq> UnitEntityName ''wordpress/1'' \<and>
   entity_wf (Machine ''0'') \<and> Machine ''0'' \<noteq> Unit ''wordpress/0'' \<and>
   EntityName (Unit ''wordpress/0'') \<noteq> EntityName (Machine ''0'') \<and>
   entity_wf (Machine ''1'') \<and> Machine ''0'' \<noteq> Machine ''1'' \<and>
   EntityName (Machine ''0'') \<noteq> EntityName (Machine ''1'')"
proof -
  have s: "unit_name_shape ''wordpress/0''" "unit_name_shape ''wordpress/1''"
    by (simp_all add: unit_name_shape_def)
  from entity_names_unique[of "''wordpress/0''" "''wordpress/1''" "''wordpress/0''" "Machine ''0''"
      "Machine ''0''" "Machine ''1''"] s
  show ?thesis by simp
qed

section \<open>Block device paths: properties\<close>

lemma path_elems_nonempty: "path_elems s \<noteq> []"
  by (induction s) (auto split: list.splits)

lemma path_elems_sep: "path_elems (p @ CHR ''/'' # s) = path_elems p @ path_elems s"
  by (induction p) (auto simp: path_elems_nonempty split: list.splits)

lemma path_elems_plain: "CHR ''/'' \<notin> set e \<Longrightarrow> path_elems e = [e]"
  by (induction e) (auto split: list.splits)

lemma clean_elem_empty: "clean_elem r out [] = out"
  by (simp add: clean_elem_def)

lemma clean_elem_plain: "plain_elem e \<Longrightarrow> clean_elem r out e = out @ [e]"
  by (simp add: clean_elem_def plain_elem_def)

text \<open>A doubled separator is cleaned away, so a trailing separator on the first
  element of a \<^verbatim>\<open>Join\<close> makes no difference.\<close>

lemma Clean_double_sep:
  "filepath_Clean (p @ ''//'' @ s) = filepath_Clean (p @ ''/'' @ s)"
proof -
  have h: "hd (p @ ''//'' @ s) = hd (p @ ''/'' @ s)"
    by (simp add: hd_append)
  have e: "foldl (clean_elem r) [] (path_elems (p @ ''//'' @ s)) =
           foldl (clean_elem r) [] (path_elems (p @ ''/'' @ s))" for r
    by (simp add: path_elems_sep clean_elem_empty)
  show ?thesis
    unfolding filepath_Clean_def h e by simp
qed

lemma Join_trailing_sep:
  "p \<noteq> [] \<Longrightarrow> filepath_Join [p @ ''/'', s] = filepath_Join [p, s]"
  using Clean_double_sep[of p s] by (simp add: filepath_Join_def)

lemma Join_diskByID_plain:
  assumes p: "plain_elem e"
  shows "filepath_Join [''/dev/disk/by-id'', e] = ''/dev/disk/by-id/'' @ e"
proof -
  from p have ne: "CHR ''/'' \<notin> set e" by (simp add: plain_elem_def)
  have "path_elems (''/dev/disk/by-id'' @ CHR ''/'' # e) = path_elems ''/dev/disk/by-id'' @ path_elems e"
    by (rule path_elems_sep)
  then have "path_elems (''/dev/disk/by-id/'' @ e) = [[], ''dev'', ''disk'', ''by-id'', e]"
    using ne by (simp add: path_elems_plain)
  then show ?thesis using p
    by (simp add: filepath_Join_def filepath_Clean_def clean_elem_plain clean_elem_empty plain_elem_def)
qed

lemma Join_dev_plain:
  assumes p: "plain_elem e"
  shows "filepath_Join [''/dev'', e] = ''/dev/'' @ e"
proof -
  from p have ne: "CHR ''/'' \<notin> set e" by (simp add: plain_elem_def)
  have "path_elems (''/dev'' @ CHR ''/'' # e) = path_elems ''/dev'' @ path_elems e"
    by (rule path_elems_sep)
  then have "path_elems (''/dev/'' @ e) = [[], ''dev'', e]"
    using ne by (simp add: path_elems_plain)
  then show ?thesis using p
    by (simp add: filepath_Join_def filepath_Clean_def clean_elem_plain clean_elem_empty plain_elem_def)
qed

text \<open>The join is a path join, not a concatenation: the result is cleaned.\<close>

lemma BlockDevicePath_cleans:
  "BlockDevicePath \<lparr>DeviceName = ''sda'', Serial = ''x/../y/''\<rparr> = (''/dev/disk/by-id/y'', None)"
  by (simp add: BlockDevicePath_def diskByID_def filepath_Join_def filepath_Clean_def clean_elem_def)

text \<open>
  C8. \<^verbatim>\<open>BlockDevicePath\<close> returns \<^verbatim>\<open>"/dev/disk/by-id/"\<close> joined (by
  \<^verbatim>\<open>filepath.Join\<close>) with the serial and a nil error when the serial is non-empty,
  whatever the device name; \<^verbatim>\<open>"/dev/"\<close> joined with the device name and a nil
  error when the serial is empty and the device name is not; and a non-nil error
  exactly when both are empty. For a serial or device name that is a single ordinary
  path element, the joined path is the directory, a separator and that element.
\<close>

theorem BlockDevicePath_cases:
  "(Serial d \<noteq> [] \<longrightarrow>
      BlockDevicePath d = (filepath_Join [''/dev/disk/by-id/'', Serial d], None)) \<and>
   (Serial d = [] \<and> DeviceName d \<noteq> [] \<longrightarrow>
      BlockDevicePath d = (filepath_Join [''/dev/'', DeviceName d], None)) \<and>
   (snd (BlockDevicePath d) \<noteq> None \<longleftrightarrow> Serial d = [] \<and> DeviceName d = []) \<and>
   (plain_elem (Serial d) \<longrightarrow>
      BlockDevicePath d = (''/dev/disk/by-id/'' @ Serial d, None)) \<and>
   (Serial d = [] \<and> plain_elem (DeviceName d) \<longrightarrow>
      BlockDevicePath d = (''/dev/'' @ DeviceName d, None))"
proof (intro conjI impI)
  assume "Serial d \<noteq> []"
  then show "BlockDevicePath d = (filepath_Join [''/dev/disk/by-id/'', Serial d], None)"
    using Join_trailing_sep[of "''/dev/disk/by-id''" "Serial d"]
    by (simp add: BlockDevicePath_def diskByID_def)
next
  assume "Serial d = [] \<and> DeviceName d \<noteq> []"
  then show "BlockDevicePath d = (filepath_Join [''/dev/'', DeviceName d], None)"
    using Join_trailing_sep[of "''/dev''" "DeviceName d"]
    by (simp add: BlockDevicePath_def diskByDeviceName_def)
next
  show "snd (BlockDevicePath d) \<noteq> None \<longleftrightarrow> Serial d = [] \<and> DeviceName d = []"
    by (simp add: BlockDevicePath_def)
next
  assume "plain_elem (Serial d)"
  then show "BlockDevicePath d = (''/dev/disk/by-id/'' @ Serial d, None)"
    using Join_diskByID_plain[of "Serial d"]
    by (simp add: BlockDevicePath_def diskByID_def plain_elem_def)
next
  assume "Serial d = [] \<and> plain_elem (DeviceName d)"
  then show "BlockDevicePath d = (''/dev/'' @ DeviceName d, None)"
    using Join_dev_plain[of "DeviceName d"]
    by (simp add: BlockDevicePath_def diskByDeviceName_def plain_elem_def)
qed

theorem BlockDevicePath_cases_witness:
  "Serial \<lparr>DeviceName = ''sda'', Serial = ''wwn-0x5000''\<rparr> \<noteq> [] \<and>
   plain_elem (Serial \<lparr>DeviceName = ''sda'', Serial = ''wwn-0x5000''\<rparr>) \<and>
   BlockDevicePath \<lparr>DeviceName = ''sda'', Serial = ''wwn-0x5000''\<rparr> =
     (''/dev/disk/by-id/wwn-0x5000'', None) \<and>
   BlockDevicePath \<lparr>DeviceName = ''sda'', Serial = ''wwn-0x5000''\<rparr> =
     (filepath_Join [''/dev/disk/by-id/'', ''wwn-0x5000''], None) \<and>
   Serial \<lparr>DeviceName = ''sda'', Serial = ''''\<rparr> = [] \<and>
   DeviceName \<lparr>DeviceName = ''sda'', Serial = ''''\<rparr> \<noteq> [] \<and>
   plain_elem (DeviceName \<lparr>DeviceName = ''sda'', Serial = ''''\<rparr>) \<and>
   BlockDevicePath \<lparr>DeviceName = ''sda'', Serial = ''''\<rparr> = (''/dev/sda'', None) \<and>
   BlockDevicePath \<lparr>DeviceName = ''sda'', Serial = ''''\<rparr> =
     (filepath_Join [''/dev/'', ''sda''], None) \<and>
   snd (BlockDevicePath \<lparr>DeviceName = '''', Serial = ''''\<rparr>) \<noteq> None"
proof -
  have p: "plain_elem ''wwn-0x5000''" "plain_elem ''sda''"
    by (simp_all add: plain_elem_def)
  have a: "BlockDevicePath \<lparr>DeviceName = ''sda'', Serial = ''wwn-0x5000''\<rparr> =
      (''/dev/disk/by-id/wwn-0x5000'', None)"
    using p BlockDevicePath_cases[of "\<lparr>DeviceName = ''sda'', Serial = ''wwn-0x5000''\<rparr>",
        THEN conjunct2, THEN conjunct2, THEN conjunct2, THEN conjunct1]
    by simp
  have a': "BlockDevicePath \<lparr>DeviceName = ''sda'', Serial = ''wwn-0x5000''\<rparr> =
      (filepath_Join [''/dev/disk/by-id/'', ''wwn-0x5000''], None)"
    using BlockDevicePath_cases[of "\<lparr>DeviceName = ''sda'', Serial = ''wwn-0x5000''\<rparr>",
        THEN conjunct1]
    by simp
  have b: "BlockDevicePath \<lparr>DeviceName = ''sda'', Serial = ''''\<rparr> = (''/dev/sda'', None)"
    using p BlockDevicePath_cases[of "\<lparr>DeviceName = ''sda'', Serial = ''''\<rparr>",
        THEN conjunct2, THEN conjunct2, THEN conjunct2, THEN conjunct2]
    by simp
  have b': "BlockDevicePath \<lparr>DeviceName = ''sda'', Serial = ''''\<rparr> =
      (filepath_Join [''/dev/'', ''sda''], None)"
    using BlockDevicePath_cases[of "\<lparr>DeviceName = ''sda'', Serial = ''''\<rparr>",
        THEN conjunct2, THEN conjunct1]
    by simp
  have c: "snd (BlockDevicePath \<lparr>DeviceName = '''', Serial = ''''\<rparr>) \<noteq> None"
    using BlockDevicePath_cases[of "\<lparr>DeviceName = '''', Serial = ''''\<rparr>",
        THEN conjunct2, THEN conjunct2, THEN conjunct1]
    by simp
  from a a' have j1: "filepath_Join [''/dev/disk/by-id/'', ''wwn-0x5000''] =
      ''/dev/disk/by-id/wwn-0x5000''"
    by simp
  from b b' have j2: "filepath_Join [''/dev/'', ''sda''] = ''/dev/sda''"
    by simp
  show ?thesis using p a b c j1 j2 by simp
qed

section \<open>HTTP storage backend: properties\<close>

lemma status_http_Error:
  "status w = None \<Longrightarrow> status (http_Error w msg code) = Some code"
  by (simp add: http_Error_def Write_def WriteHeader_def Header_Set_def Let_def)

lemma authorised_iff:
  "authorised s req \<longleftrightarrow> authkey s = [] \<or> Values_Get (Query req) ''authkey'' = authkey s"
  by (simp add: authorised_def)

text \<open>An authorised request does reach the store.\<close>

lemma ServeHTTP_put_authorised:
  "ServeHTTP \<lparr>backend = mem_Storage, httpsBaseURL = '''', authkey = ''k''\<rparr> []
     new_ResponseWriter
     \<lparr>Method = ''PUT'', Path = ''/f'', Query = [(''authkey'', ''k'')], ContentLength = 2, Body = ''hi''\<rparr>
   = Some (\<lparr>status = Some 201, header = [], body = []\<rparr>, [(''f'', ''hi'')])"
  by (simp add: ServeHTTP_def authorised_def Values_Get_def handlePut_def mem_Storage_def
      new_ResponseWriter_def WriteHeader_def StatusCreated_def)

text \<open>
  C10. For a request with method PUT or DELETE: if the backend has a non-empty
  \<^verbatim>\<open>httpsBaseURL\<close>, or it has a non-empty \<^verbatim>\<open>authkey\<close> and the request's
  \<^verbatim>\<open>authkey\<close> query parameter differs from it, then \<^verbatim>\<open>ServeHTTP\<close> answers with
  \<^verbatim>\<open>http.Error(w, "unauthorised access", 401)\<close>, whose status on a fresh response is
  401, and the store is as it was. A request is authorised exactly when the
  configured key is empty or the query parameter equals it.
\<close>

theorem ServeHTTP_unauthorised:
  "((Method req = ''PUT'' \<or> Method req = ''DELETE'') \<and>
    (httpsBaseURL s \<noteq> [] \<or>
     (authkey s \<noteq> [] \<and> Values_Get (Query req) ''authkey'' \<noteq> authkey s)) \<longrightarrow>
      ServeHTTP s b w req = Some (http_Error w ''unauthorised access'' StatusUnauthorized, b) \<and>
      (status w = None \<longrightarrow>
         (\<exists>w'. ServeHTTP s b w req = Some (w', b) \<and> status w' = Some 401))) \<and>
   (authorised s req \<longleftrightarrow>
      authkey s = [] \<or> Values_Get (Query req) ''authkey'' = authkey s)"
  by (auto simp: ServeHTTP_def authorised_def status_http_Error StatusUnauthorized_def)

theorem ServeHTTP_unauthorised_witness:
  "ServeHTTP \<lparr>backend = mem_Storage, httpsBaseURL = '''', authkey = ''k''\<rparr> [(''f'', ''old'')]
     new_ResponseWriter
     \<lparr>Method = ''PUT'', Path = ''/f'', Query = [(''authkey'', ''wrong'')], ContentLength = 2, Body = ''hi''\<rparr>
   = Some (http_Error new_ResponseWriter ''unauthorised access'' StatusUnauthorized, [(''f'', ''old'')]) \<and>
   ServeHTTP \<lparr>backend = mem_Storage, httpsBaseURL = ''https://10.0.0.1:8040'', authkey = ''''\<rparr> [(''f'', ''old'')]
     new_ResponseWriter
     \<lparr>Method = ''DELETE'', Path = ''/f'', Query = [], ContentLength = 0, Body = ''''\<rparr>
   = Some (http_Error new_ResponseWriter ''unauthorised access'' StatusUnauthorized, [(''f'', ''old'')]) \<and>
   status (http_Error new_ResponseWriter ''unauthorised access'' StatusUnauthorized) = Some 401"
proof -
  have q: "Values_Get [(''authkey'', ''wrong'')] ''authkey'' \<noteq> ''k''"
    by (simp add: Values_Get_def)
  have a: "ServeHTTP \<lparr>backend = mem_Storage, httpsBaseURL = '''', authkey = ''k''\<rparr> [(''f'', ''old'')]
      new_ResponseWriter
      \<lparr>Method = ''PUT'', Path = ''/f'', Query = [(''authkey'', ''wrong'')], ContentLength = 2, Body = ''hi''\<rparr>
    = Some (http_Error new_ResponseWriter ''unauthorised access'' StatusUnauthorized, [(''f'', ''old'')])"
    using q ServeHTTP_unauthorised[of
        "\<lparr>Method = ''PUT'', Path = ''/f'', Query = [(''authkey'', ''wrong'')], ContentLength = 2, Body = ''hi''\<rparr>"
        "\<lparr>backend = mem_Storage, httpsBaseURL = '''', authkey = ''k''\<rparr>"
        "[(''f'', ''old'')]" new_ResponseWriter, THEN conjunct1]
    by simp
  have b: "ServeHTTP \<lparr>backend = mem_Storage, httpsBaseURL = ''https://10.0.0.1:8040'', authkey = ''''\<rparr>
      [(''f'', ''old'')] new_ResponseWriter
      \<lparr>Method = ''DELETE'', Path = ''/f'', Query = [], ContentLength = 0, Body = ''''\<rparr>
    = Some (http_Error new_ResponseWriter ''unauthorised access'' StatusUnauthorized, [(''f'', ''old'')])"
    using ServeHTTP_unauthorised[of
        "\<lparr>Method = ''DELETE'', Path = ''/f'', Query = [], ContentLength = 0, Body = ''''\<rparr>"
        "\<lparr>backend = mem_Storage, httpsBaseURL = ''https://10.0.0.1:8040'', authkey = ''''\<rparr>"
        "[(''f'', ''old'')]" new_ResponseWriter, THEN conjunct1]
    by simp
  have n: "status new_ResponseWriter = None"
    by (simp add: new_ResponseWriter_def)
  have c: "status (http_Error new_ResponseWriter ''unauthorised access'' StatusUnauthorized) = Some 401"
    using q n a ServeHTTP_unauthorised[of
        "\<lparr>Method = ''PUT'', Path = ''/f'', Query = [(''authkey'', ''wrong'')], ContentLength = 2, Body = ''hi''\<rparr>"
        "\<lparr>backend = mem_Storage, httpsBaseURL = '''', authkey = ''k''\<rparr>"
        "[(''f'', ''old'')]" new_ResponseWriter, THEN conjunct1]
    by auto
  show ?thesis using a b c by simp
qed

section \<open>Leadership wire types: properties\<close>

lemma bij_by_inverse:
  assumes "\<And>x. g (f x) = x" and "\<And>y. f (g y) = y"
  shows "bij f"
  by (rule o_bij[of g f]) (auto simp: assms)

text \<open>
  C6. The bulk request and response shapes are field-exact: each struct is in
  one-to-one correspondence with the tuple of the fields the spec lists, so it has
  these fields and no other. \<^verbatim>\<open>ClaimLeadershipBulkParams\<close> is a \<^verbatim>\<open>Params\<close> list of
  records of \<^verbatim>\<open>ServiceTag\<close> and \<^verbatim>\<open>UnitTag\<close>; \<^verbatim>\<open>ClaimLeadershipBulkResults\<close> is a
  \<^verbatim>\<open>Results\<close> list of records of \<^verbatim>\<open>ServiceTag\<close>, \<^verbatim>\<open>ClaimDurationInSec\<close> (a
  \<^verbatim>\<open>float64\<close>) and \<^verbatim>\<open>Error\<close>; \<^verbatim>\<open>MergeLeadershipSettingsBulkParams\<close> is a
  \<^verbatim>\<open>Params\<close> list of records of \<^verbatim>\<open>ServiceTag\<close> and \<^verbatim>\<open>Settings\<close>.
\<close>

theorem bulk_shapes_field_exact:
  "bij (\<lambda>p::ClaimLeadershipBulkParams.
          (ClaimLeadershipBulkParams.Params p) :: ClaimLeadershipParams list) \<and>
   bij (\<lambda>p::ClaimLeadershipParams.
          (ClaimLeadershipParams.ServiceTag p, ClaimLeadershipParams.UnitTag p)
            :: string \<times> string) \<and>
   bij (\<lambda>r::ClaimLeadershipBulkResults.
          (ClaimLeadershipBulkResults.Results r) :: ClaimLeadershipResults list) \<and>
   bij (\<lambda>r::ClaimLeadershipResults.
          (ClaimLeadershipResults.ServiceTag r, ClaimDurationInSec r,
           ClaimLeadershipResults.Error r) :: string \<times> float64 \<times> Error option) \<and>
   bij (\<lambda>p::MergeLeadershipSettingsBulkParams.
          (MergeLeadershipSettingsBulkParams.Params p) :: MergeLeadershipSettingsParam list) \<and>
   bij (\<lambda>p::MergeLeadershipSettingsParam.
          (MergeLeadershipSettingsParam.ServiceTag p, MergeLeadershipSettingsParam.Settings p)
            :: string \<times> Settings)"
proof (intro conjI)
  show "bij (\<lambda>p::ClaimLeadershipBulkParams.
          (ClaimLeadershipBulkParams.Params p) :: ClaimLeadershipParams list)"
    by (rule bij_by_inverse[where g = "\<lambda>ps. \<lparr>ClaimLeadershipBulkParams.Params = ps\<rparr>"]) auto
  show "bij (\<lambda>p::ClaimLeadershipParams.
          (ClaimLeadershipParams.ServiceTag p, ClaimLeadershipParams.UnitTag p)
            :: string \<times> string)"
    by (rule bij_by_inverse[where
          g = "\<lambda>(s, u). \<lparr>ClaimLeadershipParams.ServiceTag = s, UnitTag = u\<rparr>"]) auto
  show "bij (\<lambda>r::ClaimLeadershipBulkResults.
          (ClaimLeadershipBulkResults.Results r) :: ClaimLeadershipResults list)"
    by (rule bij_by_inverse[where g = "\<lambda>rs. \<lparr>ClaimLeadershipBulkResults.Results = rs\<rparr>"]) auto
  show "bij (\<lambda>r::ClaimLeadershipResults.
          (ClaimLeadershipResults.ServiceTag r, ClaimDurationInSec r,
           ClaimLeadershipResults.Error r) :: string \<times> float64 \<times> Error option)"
    by (rule bij_by_inverse[where
          g = "\<lambda>(s, d, e). \<lparr>ClaimLeadershipResults.ServiceTag = s, ClaimDurationInSec = d,
                           Error = e\<rparr>"]) auto
  show "bij (\<lambda>p::MergeLeadershipSettingsBulkParams.
          (MergeLeadershipSettingsBulkParams.Params p) :: MergeLeadershipSettingsParam list)"
    by (rule bij_by_inverse[where
          g = "\<lambda>ps. \<lparr>MergeLeadershipSettingsBulkParams.Params = ps\<rparr>"]) auto
  show "bij (\<lambda>p::MergeLeadershipSettingsParam.
          (MergeLeadershipSettingsParam.ServiceTag p, MergeLeadershipSettingsParam.Settings p)
            :: string \<times> Settings)"
    by (rule bij_by_inverse[where
          g = "\<lambda>(s, m). \<lparr>MergeLeadershipSettingsParam.ServiceTag = s, Settings = m\<rparr>"]) auto
qed

section \<open>Leadership Lease Coordinator: properties\<close>

lemma holds_lease_unique:
  "holds_lease c now svc u1 \<Longrightarrow> holds_lease c now svc u2 \<Longrightarrow> u1 = u2"
  by (simp add: holds_lease_def)

lemma ClaimLeadership_unheld:
  "current_lease c now svc = None \<Longrightarrow>
   ClaimLeadership c now svc u d =
     (if svc = [] \<or> u = [] \<or> d \<le> 0 then (c, Inl Invalid)
      else (c\<lparr>leases := (leases c)(svc \<mapsto>
              \<lparr>HolderUnitID = u, ExpiryTimestamp = now + min d (maxDuration c)\<rparr>)\<rparr>,
            Inr (now + min d (maxDuration c) - now)))"
  by (simp add: ClaimLeadership_def Let_def)

lemma ClaimLeadership_held:
  "current_lease c now svc = Some l \<Longrightarrow>
   ClaimLeadership c now svc u d =
     (if HolderUnitID l \<noteq> u then (c, Inl LeaseHeld)
      else if svc = [] \<or> u = [] \<or> d \<le> 0 then (c, Inl Invalid)
      else (c\<lparr>leases := (leases c)(svc \<mapsto>
              \<lparr>HolderUnitID = u,
               ExpiryTimestamp = max (ExpiryTimestamp l) (now + min d (maxDuration c))\<rparr>)\<rparr>,
            Inr (max (ExpiryTimestamp l) (now + min d (maxDuration c)) - now)))"
  by (simp add: ClaimLeadership_def Let_def)

lemma current_lease_update:
  "current_lease (c\<lparr>leases := (leases c)(svc \<mapsto> l)\<rparr>) now svc =
     (if HolderUnitID l \<noteq> [] \<and> now < ExpiryTimestamp l then Some l else None)"
  by (simp add: current_lease_def)

lemma current_lease_Some:
  "current_lease c now svc = Some l \<Longrightarrow>
   leases c svc = Some l \<and> HolderUnitID l \<noteq> [] \<and> now < ExpiryTimestamp l"
  by (simp add: current_lease_def split: option.splits if_splits)

lemma current_holder_Some:
  "current_holder c now svc = Some h \<longleftrightarrow>
   (\<exists>l. current_lease c now svc = Some l \<and> HolderUnitID l = h)"
  by (auto simp: current_holder_def)

lemma current_holder_None:
  "current_holder c now svc = None \<longleftrightarrow> current_lease c now svc = None"
  by (simp add: current_holder_def)

lemma ClaimLeadership_maxDuration:
  "maxDuration (fst (ClaimLeadership c now svc u d)) = maxDuration c"
proof (cases "current_lease c now svc")
  case None
  then show ?thesis by (simp add: ClaimLeadership_unheld)
next
  case (Some l)
  then show ?thesis by (simp add: ClaimLeadership_held)
qed

lemma ClaimLeadership_held_by_other:
  assumes "current_holder c now svc = Some h" and "h \<noteq> u"
  shows "ClaimLeadership c now svc u d = (c, Inl LeaseHeld)"
proof -
  from assms(1) obtain l where l: "current_lease c now svc = Some l" "HolderUnitID l = h"
    by (auto simp: current_holder_Some)
  with assms(2) show ?thesis by (simp add: ClaimLeadership_held)
qed

lemma ClaimLeadership_keeps_holder:
  assumes "current_holder c now svc = Some h"
  shows "current_holder (fst (ClaimLeadership c now svc u d)) now svc = Some h"
proof -
  from assms obtain l where l: "current_lease c now svc = Some l" "HolderUnitID l = h"
    by (auto simp: current_holder_Some)
  from l(1) have e: "HolderUnitID l \<noteq> []" "now < ExpiryTimestamp l"
    using current_lease_Some by blast+
  show ?thesis
  proof (cases "HolderUnitID l \<noteq> u \<or> svc = [] \<or> u = [] \<or> d \<le> 0")
    case True
    then have "fst (ClaimLeadership c now svc u d) = c"
      using l(1) by (auto simp: ClaimLeadership_held)
    then show ?thesis using assms by simp
  next
    case False
    then have "fst (ClaimLeadership c now svc u d) =
        c\<lparr>leases := (leases c)(svc \<mapsto> \<lparr>HolderUnitID = u,
             ExpiryTimestamp = max (ExpiryTimestamp l) (now + min d (maxDuration c))\<rparr>)\<rparr>"
      using l(1) by (simp add: ClaimLeadership_held)
    then show ?thesis using False l(2) e
      by (simp add: current_holder_def current_lease_update)
  qed
qed

lemma ClaimLeadership_grant_holder:
  assumes "current_holder c now svc = None" and "0 < maxDuration c"
    and "ClaimLeadership c now svc u d = (c', Inr g)"
  shows "current_holder c' now svc = Some u"
proof -
  from assms(1) have n: "current_lease c now svc = None"
    by (simp add: current_holder_None)
  from assms(3) have v: "\<not> (svc = [] \<or> u = [] \<or> d \<le> 0)"
    unfolding ClaimLeadership_unheld[OF n] by (auto split: if_splits)
  with assms(3) have "c' = c\<lparr>leases := (leases c)(svc \<mapsto>
              \<lparr>HolderUnitID = u, ExpiryTimestamp = now + min d (maxDuration c)\<rparr>)\<rparr>"
    unfolding ClaimLeadership_unheld[OF n] by auto
  then show ?thesis using v assms(2)
    by (simp add: current_holder_def current_lease_update)
qed


lemma claim_all_held:
  "current_holder c now svc = Some h \<Longrightarrow>
   set (snd (claim_all c now svc reqs)) \<subseteq> {h} \<and>
   current_holder (fst (claim_all c now svc reqs)) now svc = Some h"
proof (induction reqs arbitrary: c)
  case Nil
  then show ?case by simp
next
  case (Cons r reqs)
  obtain u d where r: "r = (u, d)" by (cases r)
  obtain c' res where cl: "ClaimLeadership c now svc u d = (c', res)"
    by (cases "ClaimLeadership c now svc u d")
  have h': "current_holder c' now svc = Some h"
    using ClaimLeadership_keeps_holder[OF Cons.prems, of u d] cl by simp
  note IH = Cons.IH[OF h']
  show ?case
  proof (cases res)
    case (Inl err)
    then show ?thesis using IH r cl by simp
  next
    case (Inr g)
    have "u = h"
      using ClaimLeadership_held_by_other[OF Cons.prems, of u d] cl Inr by auto
    then show ?thesis using IH r cl Inr by (auto split: prod.splits)
  qed
qed

lemma claim_all_winners:
  "0 < maxDuration c \<Longrightarrow>
   \<exists>h. set (snd (claim_all c now svc reqs)) \<subseteq> {h} \<and>
       (snd (claim_all c now svc reqs) \<noteq> [] \<longrightarrow>
          current_holder (fst (claim_all c now svc reqs)) now svc = Some h)"
proof (induction reqs arbitrary: c)
  case Nil
  then show ?case by simp
next
  case (Cons r reqs)
  show ?case
  proof (cases "current_holder c now svc")
    case (Some h)
    then show ?thesis using claim_all_held[OF Some, of "r # reqs"] by blast
  next
    case None
    obtain u d where r: "r = (u, d)" by (cases r)
    obtain c' res where cl: "ClaimLeadership c now svc u d = (c', res)"
      by (cases "ClaimLeadership c now svc u d")
    have m: "0 < maxDuration c'"
      using ClaimLeadership_maxDuration[of c now svc u d] cl Cons.prems by simp
    show ?thesis
    proof (cases res)
      case (Inl err)
      then show ?thesis using Cons.IH[OF m] r cl by simp
    next
      case (Inr g)
      have "current_holder c' now svc = Some u"
        using ClaimLeadership_grant_holder[OF None Cons.prems] cl Inr by simp
      from claim_all_held[OF this, of reqs] show ?thesis
        using r cl Inr by (auto split: prod.splits)
    qed
  qed
qed

lemma expiry_of_update:
  "expiry_of (c\<lparr>leases := (leases c)(svc \<mapsto> l)\<rparr>) svc = Some (ExpiryTimestamp l)"
  by (simp add: expiry_of_def)

text \<open>
  C1. At any instant at most one unit holds an unexpired lease on a service: two
  holders of the same service at the same instant are the same unit; a claim by a
  different unit while the lease is unexpired fails with \<^verbatim>\<open>LeaseHeld\<close> and leaves
  the whole table, so the holder, unchanged; and when claims on one service are
  taken one after the other at the same instant (a linearisation of concurrent
  claims, with a positive \<^verbatim>\<open>maxDuration\<close>), all the claims that succeed are by
  one unit, which holds the lease afterwards. The statement is about every state of
  the table, so about every reachable one.
\<close>

theorem lease_exclusive:
  "(holds_lease c now svc u1 \<and> holds_lease c now svc u2 \<longrightarrow> u1 = u2) \<and>
   (holds_lease c now svc u \<and> u' \<noteq> u \<longrightarrow>
      ClaimLeadership c now svc u' d = (c, Inl LeaseHeld) \<and>
      holds_lease (fst (ClaimLeadership c now svc u' d)) now svc u) \<and>
   (0 < maxDuration c \<and> w1 \<in> set (snd (claim_all c now svc reqs)) \<and>
      w2 \<in> set (snd (claim_all c now svc reqs)) \<longrightarrow>
      w1 = w2 \<and> holds_lease (fst (claim_all c now svc reqs)) now svc w1)"
proof (intro conjI impI)
  assume "holds_lease c now svc u1 \<and> holds_lease c now svc u2"
  then show "u1 = u2" using holds_lease_unique by blast
next
  assume a: "holds_lease c now svc u \<and> u' \<noteq> u"
  then show "ClaimLeadership c now svc u' d = (c, Inl LeaseHeld)"
    using ClaimLeadership_held_by_other[of c now svc u u' d] by (auto simp: holds_lease_def)
  with a show "holds_lease (fst (ClaimLeadership c now svc u' d)) now svc u" by simp
next
  assume a: "0 < maxDuration c \<and> w1 \<in> set (snd (claim_all c now svc reqs)) \<and>
      w2 \<in> set (snd (claim_all c now svc reqs))"
  then obtain h where h: "set (snd (claim_all c now svc reqs)) \<subseteq> {h}"
    "snd (claim_all c now svc reqs) \<noteq> [] \<longrightarrow>
          current_holder (fst (claim_all c now svc reqs)) now svc = Some h"
    using claim_all_winners[of c now svc reqs] by blast
  from a h show "w1 = w2" by blast
  from a h show "holds_lease (fst (claim_all c now svc reqs)) now svc w1"
    by (auto simp: holds_lease_def)
qed


theorem lease_exclusive_witness:
  "holds_lease \<lparr>leases = [''svc'' \<mapsto> \<lparr>HolderUnitID = ''u1'', ExpiryTimestamp = 120\<rparr>],
       settings = (\<lambda>svc. Map.empty), maxDuration = 30\<rparr> 105 ''svc'' ''u1'' \<and>
   ClaimLeadership \<lparr>leases = [''svc'' \<mapsto> \<lparr>HolderUnitID = ''u1'', ExpiryTimestamp = 120\<rparr>],
       settings = (\<lambda>svc. Map.empty), maxDuration = 30\<rparr> 105 ''svc'' ''u2'' 20 =
     (\<lparr>leases = [''svc'' \<mapsto> \<lparr>HolderUnitID = ''u1'', ExpiryTimestamp = 120\<rparr>],
       settings = (\<lambda>svc. Map.empty), maxDuration = 30\<rparr>, Inl LeaseHeld) \<and>
   0 < maxDuration (new_Coordinator 30) \<and>
   snd (claim_all (new_Coordinator 30) 100 ''svc'' [(''u1'', 10), (''u2'', 20)]) = [''u1''] \<and>
   holds_lease (fst (claim_all (new_Coordinator 30) 100 ''svc'' [(''u1'', 10), (''u2'', 20)]))
     100 ''svc'' ''u1''"
proof -
  let ?c1 = "\<lparr>leases = [''svc'' \<mapsto> \<lparr>HolderUnitID = ''u1'', ExpiryTimestamp = 120\<rparr>],
       settings = (\<lambda>svc. Map.empty), maxDuration = 30\<rparr>"
  let ?reqs = "[(''u1'', 10::int), (''u2'', 20)]"
  have h: "holds_lease ?c1 105 ''svc'' ''u1''"
    by (simp add: holds_lease_def current_holder_def current_lease_def)
  have m: "0 < maxDuration (new_Coordinator 30)"
    by (simp add: new_Coordinator_def)
  have w: "snd (claim_all (new_Coordinator 30) 100 ''svc'' ?reqs) = [''u1'']"
    by (simp add: ClaimLeadership_def new_Coordinator_def current_lease_def Let_def)
  have a: "ClaimLeadership ?c1 105 ''svc'' ''u2'' 20 = (?c1, Inl LeaseHeld)"
    using h lease_exclusive[where c = ?c1 and now = 105 and svc = "''svc''" and u = "''u1''"
        and u' = "''u2''" and d = 20, THEN conjunct2, THEN conjunct1]
    by simp
  have b: "holds_lease (fst (claim_all (new_Coordinator 30) 100 ''svc'' ?reqs)) 100 ''svc'' ''u1''"
    using m w lease_exclusive[where c = "new_Coordinator 30" and now = 100 and svc = "''svc''"
        and ?w1.0 = "''u1''" and ?w2.0 = "''u1''" and reqs = ?reqs, THEN conjunct2, THEN conjunct2]
    by simp
  show ?thesis using h m w a b by simp
qed

text \<open>
  C2. If \<^verbatim>\<open>ClaimLeadership(svc, u, d1)\<close> succeeds and the same unit, still holding
  the lease at \<open>t2\<close>, calls \<^verbatim>\<open>ClaimLeadership(svc, u, d2)\<close>, then the expiry after
  the second call is at least the expiry before it, whatever \<open>d2\<close> is, and the
  unit still holds the lease; for a positive \<open>d2\<close> the call succeeds as a renewal
  and returns the time left until the new expiry.
\<close>

theorem renewal_never_shortens:
  "ClaimLeadership c t1 svc u d1 = (c1, Inr g1) \<and> holds_lease c1 t2 svc u \<and>
   ClaimLeadership c1 t2 svc u d2 = (c2, r) \<longrightarrow>
     (\<exists>e1 e2. expiry_of c1 svc = Some e1 \<and> expiry_of c2 svc = Some e2 \<and> e1 \<le> e2 \<and>
        (0 < d2 \<longrightarrow> r = Inr (e2 - t2))) \<and>
     holds_lease c2 t2 svc u"
proof (intro impI)
  assume a: "ClaimLeadership c t1 svc u d1 = (c1, Inr g1) \<and> holds_lease c1 t2 svc u \<and>
   ClaimLeadership c1 t2 svc u d2 = (c2, r)"
  have ok1: "svc \<noteq> [] \<and> u \<noteq> []"
    using a by (cases "current_lease c t1 svc")
      (auto simp: ClaimLeadership_unheld ClaimLeadership_held split: if_splits)
  from a obtain l where l: "current_lease c1 t2 svc = Some l" "HolderUnitID l = u"
    by (auto simp: holds_lease_def current_holder_Some)
  then have ll: "leases c1 svc = Some l" "t2 < ExpiryTimestamp l"
    using current_lease_Some[OF l(1)] by simp_all
  have e1: "expiry_of c1 svc = Some (ExpiryTimestamp l)"
    using ll(1) by (simp add: expiry_of_def)
  have h2: "holds_lease c2 t2 svc u"
    using ClaimLeadership_keeps_holder[of c1 t2 svc u u d2] a by (simp add: holds_lease_def)
  show "(\<exists>e1 e2. expiry_of c1 svc = Some e1 \<and> expiry_of c2 svc = Some e2 \<and> e1 \<le> e2 \<and>
        (0 < d2 \<longrightarrow> r = Inr (e2 - t2))) \<and> holds_lease c2 t2 svc u"
  proof (cases "0 < d2")
    case True
    then have "(c2, r) = (c1\<lparr>leases := (leases c1)(svc \<mapsto>
              \<lparr>HolderUnitID = u,
               ExpiryTimestamp = max (ExpiryTimestamp l) (t2 + min d2 (maxDuration c1))\<rparr>)\<rparr>,
            Inr (max (ExpiryTimestamp l) (t2 + min d2 (maxDuration c1)) - t2))"
      using a l ok1 by (simp add: ClaimLeadership_held)
    then have c2: "c2 = c1\<lparr>leases := (leases c1)(svc \<mapsto>
              \<lparr>HolderUnitID = u,
               ExpiryTimestamp = max (ExpiryTimestamp l) (t2 + min d2 (maxDuration c1))\<rparr>)\<rparr>"
      and r: "r = Inr (max (ExpiryTimestamp l) (t2 + min d2 (maxDuration c1)) - t2)"
      by simp_all
    have e2: "expiry_of c2 svc = Some (max (ExpiryTimestamp l) (t2 + min d2 (maxDuration c1)))"
      unfolding c2 by (simp add: expiry_of_def)
    show ?thesis using e1 e2 r h2 by auto
  next
    case False
    then have "(c2, r) = (c1, Inl Invalid)"
      using a l by (simp add: ClaimLeadership_held)
    then show ?thesis using e1 h2 False by simp
  qed
qed

theorem renewal_never_shortens_witness:
  "ClaimLeadership (new_Coordinator 30) 100 ''svc'' ''u1'' 20 =
     (\<lparr>leases = [''svc'' \<mapsto> \<lparr>HolderUnitID = ''u1'', ExpiryTimestamp = 120\<rparr>],
       settings = (\<lambda>svc. Map.empty), maxDuration = 30\<rparr>, Inr 20) \<and>
   holds_lease \<lparr>leases = [''svc'' \<mapsto> \<lparr>HolderUnitID = ''u1'', ExpiryTimestamp = 120\<rparr>],
       settings = (\<lambda>svc. Map.empty), maxDuration = 30\<rparr> 105 ''svc'' ''u1'' \<and>
   (5::int) < 20 \<and>
   expiry_of \<lparr>leases = [''svc'' \<mapsto> \<lparr>HolderUnitID = ''u1'', ExpiryTimestamp = 120\<rparr>],
       settings = (\<lambda>svc. Map.empty), maxDuration = 30\<rparr> ''svc'' = Some 120 \<and>
   (\<exists>e2. expiry_of (fst (ClaimLeadership
       \<lparr>leases = [''svc'' \<mapsto> \<lparr>HolderUnitID = ''u1'', ExpiryTimestamp = 120\<rparr>],
        settings = (\<lambda>svc. Map.empty), maxDuration = 30\<rparr> 105 ''svc'' ''u1'' 5)) ''svc'' = Some e2 \<and>
      120 \<le> e2 \<and>
      snd (ClaimLeadership
       \<lparr>leases = [''svc'' \<mapsto> \<lparr>HolderUnitID = ''u1'', ExpiryTimestamp = 120\<rparr>],
        settings = (\<lambda>svc. Map.empty), maxDuration = 30\<rparr> 105 ''svc'' ''u1'' 5) = Inr (e2 - 105)) \<and>
   holds_lease (fst (ClaimLeadership
       \<lparr>leases = [''svc'' \<mapsto> \<lparr>HolderUnitID = ''u1'', ExpiryTimestamp = 120\<rparr>],
        settings = (\<lambda>svc. Map.empty), maxDuration = 30\<rparr> 105 ''svc'' ''u1'' 5)) 105 ''svc'' ''u1''"
proof -
  let ?c1 = "\<lparr>leases = [''svc'' \<mapsto> \<lparr>HolderUnitID = ''u1'', ExpiryTimestamp = 120\<rparr>],
       settings = (\<lambda>svc. Map.empty), maxDuration = 30\<rparr>"
  let ?X = "ClaimLeadership ?c1 105 ''svc'' ''u1'' 5"
  have g: "ClaimLeadership (new_Coordinator 30) 100 ''svc'' ''u1'' 20 = (?c1, Inr 20)"
    by (simp add: ClaimLeadership_def new_Coordinator_def current_lease_def Let_def)
  have h: "holds_lease ?c1 105 ''svc'' ''u1''"
    by (simp add: holds_lease_def current_holder_def current_lease_def)
  have e: "expiry_of ?c1 ''svc'' = Some 120"
    by (simp add: expiry_of_def)
  have x: "?X = (fst ?X, snd ?X)" by simp
  note T = renewal_never_shortens[where c = "new_Coordinator 30" and ?t1.0 = 100
      and svc = "''svc''" and u = "''u1''" and ?d1.0 = 20 and ?c1.0 = ?c1 and ?g1.0 = 20
      and ?t2.0 = 105 and ?d2.0 = 5 and ?c2.0 = "fst ?X" and r = "snd ?X",
      THEN mp, OF conjI[OF g conjI[OF h x]]]
  from T have 1: "\<exists>e2. expiry_of (fst ?X) ''svc'' = Some e2 \<and> 120 \<le> e2 \<and>
      snd ?X = Inr (e2 - 105)"
    using e by auto
  from T have 2: "holds_lease (fst ?X) 105 ''svc'' ''u1''"
    by (rule conjunct2)
  show ?thesis using g h e 1 2 by simp
qed

text \<open>The spec's example: merging \<^verbatim>\<open>{"a":"1"}\<close> and then \<^verbatim>\<open>{"a":"2","b":"3"}\<close>
  gives \<^verbatim>\<open>{"a":"2","b":"3"}\<close>, and merging \<^verbatim>\<open>{"a":""}\<close> deletes the key.\<close>

lemma merge_settings_example:
  "merge_settings (merge_settings Map.empty [''a'' \<mapsto> ''1'']) [''a'' \<mapsto> ''2'', ''b'' \<mapsto> ''3'']
     = [''a'' \<mapsto> ''2'', ''b'' \<mapsto> ''3''] \<and>
   merge_settings [''a'' \<mapsto> ''2'', ''b'' \<mapsto> ''3''] [''a'' \<mapsto> ''''] = [''b'' \<mapsto> ''3'']"
  by (auto simp: merge_settings_def fun_eq_iff)

text \<open>
  C3. \<^verbatim>\<open>MergeLeadershipSettings(serviceID, unitID, updates)\<close> by the current
  holder succeeds and merges field by field: a key of \<open>updates\<close> with a non-empty
  value is overwritten with it, a key absent from \<open>updates\<close> keeps its stored
  value, a key mapped to the empty string is deleted; the settings of other
  services and the leases are untouched. By a unit that does not hold the lease it
  fails with \<^verbatim>\<open>NotLeader\<close> and changes nothing.
\<close>

theorem merge_settings_fieldwise:
  "(holds_lease c now svc u \<longrightarrow>
      snd (MergeLeadershipSettings c now svc u updates) = None \<and>
      (\<forall>k v. updates k = Some v \<and> v \<noteq> [] \<longrightarrow>
         GetLeadershipSettings (fst (MergeLeadershipSettings c now svc u updates)) svc k = Some v) \<and>
      (\<forall>k. updates k = None \<longrightarrow>
         GetLeadershipSettings (fst (MergeLeadershipSettings c now svc u updates)) svc k =
         GetLeadershipSettings c svc k) \<and>
      (\<forall>k. updates k = Some [] \<longrightarrow>
         GetLeadershipSettings (fst (MergeLeadershipSettings c now svc u updates)) svc k = None) \<and>
      (\<forall>svc'. svc' \<noteq> svc \<longrightarrow>
         GetLeadershipSettings (fst (MergeLeadershipSettings c now svc u updates)) svc' =
         GetLeadershipSettings c svc') \<and>
      leases (fst (MergeLeadershipSettings c now svc u updates)) = leases c) \<and>
   (\<not> holds_lease c now svc u \<longrightarrow>
      MergeLeadershipSettings c now svc u updates = (c, Some NotLeader))"
  by (simp add: MergeLeadershipSettings_def holds_lease_def GetLeadershipSettings_def
      merge_settings_def)

theorem merge_settings_fieldwise_witness:
  "holds_lease \<lparr>leases = [''svc'' \<mapsto> \<lparr>HolderUnitID = ''u1'', ExpiryTimestamp = 120\<rparr>],
       settings = (\<lambda>svc. [''b'' \<mapsto> ''3'', ''c'' \<mapsto> ''4'']), maxDuration = 30\<rparr>
     105 ''svc'' ''u1'' \<and>
   GetLeadershipSettings (fst (MergeLeadershipSettings
       \<lparr>leases = [''svc'' \<mapsto> \<lparr>HolderUnitID = ''u1'', ExpiryTimestamp = 120\<rparr>],
        settings = (\<lambda>svc. [''b'' \<mapsto> ''3'', ''c'' \<mapsto> ''4'']), maxDuration = 30\<rparr>
       105 ''svc'' ''u1'' [''a'' \<mapsto> ''1'', ''b'' \<mapsto> ''''])) ''svc'' ''a'' = Some ''1'' \<and>
   GetLeadershipSettings (fst (MergeLeadershipSettings
       \<lparr>leases = [''svc'' \<mapsto> \<lparr>HolderUnitID = ''u1'', ExpiryTimestamp = 120\<rparr>],
        settings = (\<lambda>svc. [''b'' \<mapsto> ''3'', ''c'' \<mapsto> ''4'']), maxDuration = 30\<rparr>
       105 ''svc'' ''u1'' [''a'' \<mapsto> ''1'', ''b'' \<mapsto> ''''])) ''svc'' ''b'' = None \<and>
   GetLeadershipSettings (fst (MergeLeadershipSettings
       \<lparr>leases = [''svc'' \<mapsto> \<lparr>HolderUnitID = ''u1'', ExpiryTimestamp = 120\<rparr>],
        settings = (\<lambda>svc. [''b'' \<mapsto> ''3'', ''c'' \<mapsto> ''4'']), maxDuration = 30\<rparr>
       105 ''svc'' ''u1'' [''a'' \<mapsto> ''1'', ''b'' \<mapsto> ''''])) ''svc'' ''c'' = Some ''4'' \<and>
   GetLeadershipSettings (fst (MergeLeadershipSettings
       \<lparr>leases = [''svc'' \<mapsto> \<lparr>HolderUnitID = ''u1'', ExpiryTimestamp = 120\<rparr>],
        settings = (\<lambda>svc. [''b'' \<mapsto> ''3'', ''c'' \<mapsto> ''4'']), maxDuration = 30\<rparr>
       105 ''svc'' ''u1'' [''a'' \<mapsto> ''1'', ''b'' \<mapsto> ''''])) ''other'' ''b'' = Some ''3'' \<and>
   \<not> holds_lease \<lparr>leases = [''svc'' \<mapsto> \<lparr>HolderUnitID = ''u1'', ExpiryTimestamp = 120\<rparr>],
       settings = (\<lambda>svc. [''b'' \<mapsto> ''3'', ''c'' \<mapsto> ''4'']), maxDuration = 30\<rparr>
     105 ''svc'' ''u2'' \<and>
   snd (MergeLeadershipSettings
       \<lparr>leases = [''svc'' \<mapsto> \<lparr>HolderUnitID = ''u1'', ExpiryTimestamp = 120\<rparr>],
        settings = (\<lambda>svc. [''b'' \<mapsto> ''3'', ''c'' \<mapsto> ''4'']), maxDuration = 30\<rparr>
       105 ''svc'' ''u2'' [''a'' \<mapsto> ''1'']) = Some NotLeader"
proof -
  let ?c1 = "\<lparr>leases = [''svc'' \<mapsto> \<lparr>HolderUnitID = ''u1'', ExpiryTimestamp = 120\<rparr>],
       settings = (\<lambda>svc. [''b'' \<mapsto> ''3'', ''c'' \<mapsto> ''4'']), maxDuration = 30\<rparr>"
  let ?upd = "[''a'' \<mapsto> ''1'', ''b'' \<mapsto> '''']"
  let ?c2 = "fst (MergeLeadershipSettings ?c1 105 ''svc'' ''u1'' ?upd)"
  have h: "holds_lease ?c1 105 ''svc'' ''u1''"
    by (simp add: holds_lease_def current_holder_def current_lease_def)
  have n: "\<not> holds_lease ?c1 105 ''svc'' ''u2''"
    by (simp add: holds_lease_def current_holder_def current_lease_def)
  note m = merge_settings_fieldwise[where c = ?c1 and now = 105 and svc = "''svc''"
      and u = "''u1''" and updates = ?upd, THEN conjunct1, THEN mp, OF h]
  have a: "GetLeadershipSettings ?c2 ''svc'' ''a'' = Some ''1''"
    using m[THEN conjunct2, THEN conjunct1, THEN spec, THEN spec, of "''a''" "''1''"] by simp
  have k: "GetLeadershipSettings ?c2 ''svc'' ''c'' = Some ''4''"
    using m[THEN conjunct2, THEN conjunct2, THEN conjunct1, THEN spec, of "''c''"]
    by (simp add: GetLeadershipSettings_def)
  have b: "GetLeadershipSettings ?c2 ''svc'' ''b'' = None"
    using m[THEN conjunct2, THEN conjunct2, THEN conjunct2, THEN conjunct1, THEN spec, of "''b''"]
    by simp
  have o: "GetLeadershipSettings ?c2 ''other'' ''b'' = Some ''3''"
    using m[THEN conjunct2, THEN conjunct2, THEN conjunct2, THEN conjunct2, THEN conjunct1,
        THEN spec, of "''other''"]
    by (simp add: GetLeadershipSettings_def)
  have c: "snd (MergeLeadershipSettings ?c1 105 ''svc'' ''u2'' [''a'' \<mapsto> ''1'']) = Some NotLeader"
    using n merge_settings_fieldwise[where c = ?c1 and now = 105 and svc = "''svc''"
      and u = "''u2''" and updates = "[''a'' \<mapsto> ''1'']", THEN conjunct2]
    by simp
  show ?thesis using h n a k b o c by simp
qed

section \<open>Bulk operations: properties\<close>


































text \<open>
  Elements that name the same service are taken in the order of the request, each
  by the single operation: once the claim of \<^verbatim>\<open>unit-a-0\<close> on \<^verbatim>\<open>service-a\<close> has
  succeeded, the claim of \<^verbatim>\<open>unit-a-1\<close> on that service gets \<^verbatim>\<open>LeaseHeld\<close>, as
  it would from \<^verbatim>\<open>ClaimLeadership\<close> called on its own at that point.
\<close>

lemma bulk_same_service_in_order:
  "claim_outcomes (new_Coordinator 30) 100 30
     [\<lparr>ClaimLeadershipParams.ServiceTag = ''service-a'', UnitTag = ''unit-a-0''\<rparr>,
      \<lparr>ClaimLeadershipParams.ServiceTag = ''service-a'', UnitTag = ''unit-a-1''\<rparr>] =
     [\<lparr>ClaimLeadershipResults.ServiceTag = ''service-a'', ClaimDurationInSec = 30, Error = None\<rparr>,
      \<lparr>ClaimLeadershipResults.ServiceTag = ''service-a'', ClaimDurationInSec = 0,
         Error = Some LeaseHeld\<rparr>]"
  by (simp add: claim_outcomes_def ClaimLeadershipBulk_def claim_one_def claim_result_def
      ClaimLeadership_def current_lease_def new_Coordinator_def Let_def)

section \<open>Worker Execution Engine: properties\<close>

lemma Wait_stop_with: "Wait (stop_with H h r) = Some r"
  by (simp add: Wait_def stop_with_def)

lemma teardowns_stop_with: "teardowns (stop_with H h r) = 1"
  by (simp add: stop_with_def)

lemma Start_SetUp_error:
  "fst (SetUp H h) = Some err \<Longrightarrow> Start H h es = stop_with H (snd (SetUp H h)) (Some err)"
  by (cases "SetUp H h") (simp add: Start_def)

lemma Start_SetUp_ok:
  "SetUp H h = (None, h0) \<Longrightarrow> Start H h es = running H h0 (Notification # es)"
  by (simp add: Start_def)

lemma running_HandleChange_error:
  "changes H h k = Some hk \<Longrightarrow> fst (HandleChange H hk) = Some err \<Longrightarrow>
   k < length evs \<Longrightarrow> set (take (Suc k) evs) \<subseteq> {Notification} \<Longrightarrow>
   running H h evs = stop_with H (snd (HandleChange H hk)) (Some err)"
proof (induction k arbitrary: h evs)
  case 0
  from "0.prems"(3) obtain e es where evs: "evs = e # es" by (cases evs) auto
  with "0.prems"(4) have e: "e = Notification" by simp
  from "0.prems"(1) have "hk = h" by simp
  with "0.prems"(2) evs e show ?case by (cases "HandleChange H h") simp
next
  case (Suc k)
  from Suc.prems(3) obtain e es where evs: "evs = e # es" by (cases evs) auto
  with Suc.prems(4) have e: "e = Notification" by simp
  obtain r h' where hc: "HandleChange H h = (r, h')" by (cases "HandleChange H h")
  with Suc.prems(1) have r: "r = None" and ch: "changes H h' k = Some hk"
    by (cases r; simp)+
  from Suc.prems evs have "k < length es" "set (take (Suc k) es) \<subseteq> {Notification}" by simp_all
  from Suc.IH[OF ch Suc.prems(2) this] show ?case using evs e hc r by simp
qed

lemma Start_HandleChange_error:
  assumes "SetUp H h = (None, h0)" "changes H h0 k = Some hk"
    "fst (HandleChange H hk) = Some err" "k \<le> length es" "set (take k es) \<subseteq> {Notification}"
  shows "Start H h es = stop_with H (snd (HandleChange H hk)) (Some err)"
proof -
  have "running H h0 (Notification # es) = stop_with H (snd (HandleChange H hk)) (Some err)"
    using assms(2,3) by (rule running_HandleChange_error) (use assms(4,5) in simp_all)
  with assms(1) show ?thesis by (simp add: Start_SetUp_ok)
qed

lemma running_stopped_final:
  "state (running H h es) = Stopped r \<Longrightarrow> running H h (es @ later) = running H h es"
proof (induction es arbitrary: h)
  case Nil
  then show ?case by simp
next
  case (Cons e es)
  show ?case
  proof (cases e)
    case Notification
    obtain x h' where hc: "HandleChange H h = (x, h')" by (cases "HandleChange H h")
    show ?thesis
    proof (cases x)
      case None
      with Cons Notification hc show ?thesis by simp
    next
      case (Some a)
      with Notification hc show ?thesis by simp
    qed
  next
    case StopRequest
    then show ?thesis by simp
  qed
qed

lemma Start_stopped_final:
  "state (Start H h es) = Stopped r \<Longrightarrow> Start H h (es @ later) = Start H h es"
proof (cases "SetUp H h")
  case (Pair x h0)
  assume s: "state (Start H h es) = Stopped r"
  show ?thesis
  proof (cases x)
    case None
    with Pair s have "state (running H h0 (Notification # es)) = Stopped r"
      by (simp add: Start_def)
    from running_stopped_final[OF this, of later] show ?thesis
      using Pair None by (simp add: Start_def)
  next
    case (Some a)
    with Pair show ?thesis by (simp add: Start_def)
  qed
qed

lemma running_error_from_handler:
  "Wait (running H h es) = Some (Some err) \<Longrightarrow> \<exists>h'. fst (HandleChange H h') = Some err"
proof (induction es arbitrary: h)
  case Nil
  then show ?case by (simp add: Wait_def)
next
  case (Cons e es)
  show ?case
  proof (cases e)
    case Notification
    obtain x h' where hc: "HandleChange H h = (x, h')" by (cases "HandleChange H h")
    show ?thesis
    proof (cases x)
      case None
      with Cons Notification hc show ?thesis by simp
    next
      case (Some a)
      with Cons.prems Notification hc have "a = err" by (simp add: Wait_stop_with)
      with Some hc have "fst (HandleChange H h) = Some err" by simp
      then show ?thesis by blast
    qed
  next
    case StopRequest
    with Cons.prems show ?thesis by (simp add: Wait_stop_with)
  qed
qed

lemma Start_error_from_handler:
  assumes "Wait (Start H h es) = Some (Some err)"
  shows "fst (SetUp H h) = Some err \<or> (\<exists>h'. fst (HandleChange H h') = Some err)"
proof (cases "SetUp H h")
  case (Pair x h0)
  show ?thesis
  proof (cases x)
    case None
    with Pair assms have "Wait (running H h0 (Notification # es)) = Some (Some err)"
      by (simp add: Start_def)
    then have "\<exists>h'. fst (HandleChange H h') = Some err"
      by (rule running_error_from_handler)
    then show ?thesis by simp
  next
    case (Some a)
    with Pair assms show ?thesis by (simp add: Start_def Wait_stop_with)
  qed
qed

lemma entity_changes:
  "changes entity_handler (replicate k None @ calls) k = Some calls"
  by (induction k) (simp_all add: entity_handler_def call_own_entity_def)

lemma entity_SetUp_ok:
  "SetUp entity_handler (None # calls) = (None, calls)"
  by (simp add: entity_handler_def call_own_entity_def)

lemma entity_call_error:
  "HandleChange entity_handler (Some e # rest) = (Some (own_entity_error e), rest)"
  "SetUp entity_handler (Some e # rest) = (Some (own_entity_error e), rest)"
  by (simp_all add: entity_handler_def call_own_entity_def)

text \<open>
  C4. A worker whose remote call for its own entity returns \<^verbatim>\<open>NotFound\<close> or
  \<^verbatim>\<open>Unauthorized\<close>, in \<^verbatim>\<open>SetUp\<close> or in a later \<^verbatim>\<open>HandleChange\<close>, stops with the
  terminate-permanently signal: \<^verbatim>\<open>Wait\<close> returns exactly
  \<^verbatim>\<open>ErrTerminateAgent\<close>, and \<^verbatim>\<open>TearDown\<close> has run once. For any handler, an error
  of \<^verbatim>\<open>SetUp\<close>, or of the first \<^verbatim>\<open>HandleChange\<close> that fails, is the result of
  \<^verbatim>\<open>Wait\<close> as it is; a non-nil result of \<^verbatim>\<open>Wait\<close> is always an error the
  handler returned; and the result of a stopped worker never changes, whatever
  reaches the worker later.
\<close>

theorem worker_terminate_signal:
  "(e = NotFound \<or> e = Unauthorized \<longrightarrow>
      own_entity_error e = ErrTerminateAgent \<and>
      Wait (Start entity_handler (Some e # rest) es) = Some (Some ErrTerminateAgent) \<and>
      teardowns (Start entity_handler (Some e # rest) es) = 1 \<and>
      (k \<le> length es \<and> set (take k es) \<subseteq> {Notification} \<longrightarrow>
         Wait (Start entity_handler (replicate (Suc k) None @ Some e # rest) es) =
           Some (Some ErrTerminateAgent) \<and>
         teardowns (Start entity_handler (replicate (Suc k) None @ Some e # rest) es) = 1)) \<and>
   (fst (SetUp H h) = Some err \<longrightarrow> Wait (Start H h es) = Some (Some err)) \<and>
   (SetUp H h = (None, h0) \<and> changes H h0 k = Some hk \<and> fst (HandleChange H hk) = Some err \<and>
    k \<le> length es \<and> set (take k es) \<subseteq> {Notification} \<longrightarrow>
      Wait (Start H h es) = Some (Some err)) \<and>
   (Wait (Start H h es) = Some (Some err) \<longrightarrow>
      fst (SetUp H h) = Some err \<or> (\<exists>h'. fst (HandleChange H h') = Some err)) \<and>
   (Wait (Start H h es) = Some result \<longrightarrow> Wait (Start H h (es @ later)) = Some result)"
proof (intro conjI impI)
  assume e: "e = NotFound \<or> e = Unauthorized"
  then show t: "own_entity_error e = ErrTerminateAgent"
    by (auto simp: own_entity_error_def)
  have s: "Start entity_handler (Some e # rest) es = stop_with entity_handler rest (Some ErrTerminateAgent)"
    using Start_SetUp_error[of entity_handler "Some e # rest" "own_entity_error e" es] t
    by (simp add: entity_call_error)
  show "Wait (Start entity_handler (Some e # rest) es) = Some (Some ErrTerminateAgent)"
    unfolding s by (rule Wait_stop_with)
  show "teardowns (Start entity_handler (Some e # rest) es) = 1"
    unfolding s by (rule teardowns_stop_with)
  assume k: "k \<le> length es \<and> set (take k es) \<subseteq> {Notification}"
  have "Start entity_handler (replicate (Suc k) None @ Some e # rest) es =
      stop_with entity_handler (snd (HandleChange entity_handler (Some e # rest)))
        (Some ErrTerminateAgent)"
  proof (rule Start_HandleChange_error)
    show "SetUp entity_handler (replicate (Suc k) None @ Some e # rest) =
        (None, replicate k None @ Some e # rest)"
      by (simp add: entity_SetUp_ok)
    show "changes entity_handler (replicate k None @ Some e # rest) k = Some (Some e # rest)"
      by (rule entity_changes)
    show "fst (HandleChange entity_handler (Some e # rest)) = Some ErrTerminateAgent"
      using t by (simp add: entity_call_error)
  qed (use k in simp_all)
  then show "Wait (Start entity_handler (replicate (Suc k) None @ Some e # rest) es) =
           Some (Some ErrTerminateAgent)"
    and "teardowns (Start entity_handler (replicate (Suc k) None @ Some e # rest) es) = 1"
    by (simp_all add: Wait_stop_with teardowns_stop_with)
next
  assume "fst (SetUp H h) = Some err"
  then show "Wait (Start H h es) = Some (Some err)"
    by (simp add: Start_SetUp_error Wait_stop_with)
next
  assume "SetUp H h = (None, h0) \<and> changes H h0 k = Some hk \<and> fst (HandleChange H hk) = Some err \<and>
    k \<le> length es \<and> set (take k es) \<subseteq> {Notification}"
  then have "Start H h es = stop_with H (snd (HandleChange H hk)) (Some err)"
    using Start_HandleChange_error[of H h h0 k hk err es] by blast
  then show "Wait (Start H h es) = Some (Some err)"
    by (simp add: Wait_stop_with)
next
  assume "Wait (Start H h es) = Some (Some err)"
  then show "fst (SetUp H h) = Some err \<or> (\<exists>h'. fst (HandleChange H h') = Some err)"
    by (rule Start_error_from_handler)
next
  assume "Wait (Start H h es) = Some result"
  then have "state (Start H h es) = Stopped result"
    by (simp add: Wait_def split: WorkerState.splits)
  from Start_stopped_final[OF this, of later] show "Wait (Start H h (es @ later)) = Some result"
    using \<open>Wait (Start H h es) = Some result\<close> by simp
qed


theorem worker_terminate_signal_witness:
  "Wait (Start entity_handler [Some Unauthorized] []) = Some (Some ErrTerminateAgent) \<and>
   Wait (Start entity_handler [None, None, Some NotFound] [Notification]) =
     Some (Some ErrTerminateAgent) \<and>
   teardowns (Start entity_handler [None, None, Some NotFound] [Notification]) = 1 \<and>
   Wait (Start entity_handler [Some Transient] []) = Some (Some (CallError Transient)) \<and>
   Wait (Start entity_handler [None, Some Transient] []) = Some (Some (CallError Transient)) \<and>
   (\<exists>h'. fst (HandleChange entity_handler h') = Some (CallError Transient)) \<and>
   Wait (Start entity_handler [None, Some Transient] [Notification, StopRequest]) =
     Some (Some (CallError Transient))"
proof -
  have a: "Wait (Start entity_handler [Some Unauthorized] []) = Some (Some ErrTerminateAgent)"
    using worker_terminate_signal[where e = Unauthorized and rest = "[]" and es = "[]",
        THEN conjunct1]
    by simp
  have b: "Wait (Start entity_handler [None, None, Some NotFound] [Notification]) =
      Some (Some ErrTerminateAgent) \<and>
      teardowns (Start entity_handler [None, None, Some NotFound] [Notification]) = 1"
    using worker_terminate_signal[where e = NotFound and rest = "[]" and es = "[Notification]"
        and k = 1, THEN conjunct1]
    by simp
  have c: "Wait (Start entity_handler [Some Transient] []) = Some (Some (CallError Transient))"
    using worker_terminate_signal[where H = entity_handler and h = "[Some Transient]"
        and err = "CallError Transient" and es = "[]", THEN conjunct2, THEN conjunct1]
    by (simp add: entity_handler_def call_own_entity_def own_entity_error_def)
  have d: "Wait (Start entity_handler [None, Some Transient] []) = Some (Some (CallError Transient))"
    using worker_terminate_signal[where H = entity_handler and h = "[None, Some Transient]"
        and ?h0.0 = "[Some Transient]" and k = 0 and hk = "[Some Transient]"
        and err = "CallError Transient" and es = "[]",
        THEN conjunct2, THEN conjunct2, THEN conjunct1]
    by (simp add: entity_handler_def call_own_entity_def own_entity_error_def)
  have s: "fst (SetUp entity_handler [None, Some Transient]) \<noteq> Some (CallError Transient)"
    by (simp add: entity_handler_def call_own_entity_def)
  have f: "\<exists>h'. fst (HandleChange entity_handler h') = Some (CallError Transient)"
    using d s worker_terminate_signal[where H = entity_handler and h = "[None, Some Transient]"
        and err = "CallError Transient" and es = "[]",
        THEN conjunct2, THEN conjunct2, THEN conjunct2, THEN conjunct1]
    by simp
  have e: "Wait (Start entity_handler [None, Some Transient] [Notification, StopRequest]) =
      Some (Some (CallError Transient))"
    using d worker_terminate_signal[where H = entity_handler and h = "[None, Some Transient]"
        and es = "[]" and later = "[Notification, StopRequest]"
        and result = "Some (CallError Transient)",
        THEN conjunct2, THEN conjunct2, THEN conjunct2, THEN conjunct2]
    by simp
  show ?thesis using a b c d e f by simp
qed

end
